theory Spec2Isabelle
  imports Main "HOL-Library.Word"
begin

unbundle bit_operations_syntax

section \<open>Clock debugfs glue of arch/arm/mach-msm/clock-debug.c\<close>

text \<open>
  The file wires the callbacks of the clock framework to debugfs files. The framework
  itself (clock.h, clock.c), debugfs, printk and ctype are not part of the file, so
  they appear here as an environment of operations over an abstract driver state
  \<open>'w\<close>, as a tree of directory entries, and as a log of messages.
\<close>

subsection \<open>Data\<close>

type_synonym u32 = "32 word"
type_synonym u64 = "64 word"

text \<open>The address of an operation table (\<open>struct clk_ops *\<close>).\<close>
type_synonym ops_ptr = nat

text \<open>The fields of \<open>struct clk\<close> that the file reads.\<close>
record clk =
  id_clk :: u32
  flags :: u32
  dbg_name :: string
  ops :: ops_ptr

text \<open>
  An operation table. The file tests \<open>measure_rate\<close> and \<open>list_rate\<close> against NULL
  before creating their files, so these two are optional; the others are called
  unconditionally. Every operation may change the driver state. What \<open>is_enabled\<close>
  and \<open>measure_rate\<close> return is given as the \<open>u64\<close> the handlers store. The index
  of \<open>list_rate\<close> is the C \<open>int\<close> counter of the loop, kept as its 32 bits.
\<close>
record 'w clk_ops =
  enable :: "u32 \<Rightarrow> 'w \<Rightarrow> int \<times> 'w"
  disable :: "u32 \<Rightarrow> 'w \<Rightarrow> 'w"
  is_enabled :: "u32 \<Rightarrow> 'w \<Rightarrow> u64 \<times> 'w"
  measure_rate :: "(u32 \<Rightarrow> 'w \<Rightarrow> u64 \<times> 'w) option"
  list_rate :: "(u32 \<Rightarrow> u32 \<Rightarrow> 'w \<Rightarrow> int \<times> 'w) option"

text \<open>
  Everything the file takes from its surroundings and never changes: the operation
  tables by address, the address of \<open>clk_ops_remote\<close>, the flag bits \<open>CLK_MIN\<close> and
  \<open>CLK_MAX\<close> of clock.h, the rate interface of the clock framework
  (\<open>clk_set_rate\<close>, \<open>clk_set_min_rate\<close>, \<open>clk_set_max_rate\<close>, \<open>clk_get_rate\<close>),
  \<open>tolower\<close> of ctype.h, and whether the n-th attempt to create a debugfs entry
  finds the memory it needs. Values that reach a \<open>u64\<close> are given as that \<open>u64\<close>;
  the written value is handed to the rate interface as it was written.
\<close>
record 'w env =
  ops_mem :: "ops_ptr \<Rightarrow> 'w clk_ops"
  clk_ops_remote :: ops_ptr
  CLK_MIN :: u32
  CLK_MAX :: u32
  clk_set_rate :: "clk \<Rightarrow> u64 \<Rightarrow> 'w \<Rightarrow> int \<times> 'w"
  clk_set_min_rate :: "clk \<Rightarrow> u64 \<Rightarrow> 'w \<Rightarrow> int \<times> 'w"
  clk_set_max_rate :: "clk \<Rightarrow> u64 \<Rightarrow> 'w \<Rightarrow> int \<times> 'w"
  clk_get_rate :: "clk \<Rightarrow> 'w \<Rightarrow> u64 \<times> 'w"
  tolower :: "char \<Rightarrow> char"
  alloc_ok :: "nat \<Rightarrow> bool"

text \<open>
  Every call into the clock framework, with its arguments and its result. A call of
  \<open>enable\<close>, \<open>disable\<close> or \<open>is_enabled\<close> also names the operation table it went
  through, by its address.
\<close>
datatype call =
  Clk_set_rate clk u64 int
  | Clk_set_min_rate clk u64 int
  | Clk_set_max_rate clk u64 int
  | Clk_get_rate clk u64
  | Op_enable ops_ptr u32 int
  | Op_disable ops_ptr u32
  | Op_is_enabled ops_ptr u32 u64
  | Op_measure_rate u32 u64
  | Op_list_rate u32 u32 int

text \<open>
  The messages of the file, one constructor per format string:
  \<open>"clk_set%s_rate failed (%d)\n"\<close> (with \<open>"_min"\<close> or \<open>""\<close>), \<open>"Enabled clocks:\n"\<close>,
  \<open>"\t%s\n"\<close>, \<open>"Enabled clock count: %d\n"\<close> and \<open>"No clocks enabled.\n"\<close>.
\<close>
datatype kmsg =
  Msg_set_rate_failed bool int
  | Msg_enabled_clocks
  | Msg_clock_name string
  | Msg_enabled_count int
  | Msg_no_clocks_enabled

text \<open>A directory entry is named by a handle (\<open>struct dentry *\<close>).\<close>
type_synonym dentry = nat

datatype fops =
  clock_rate_fops
  | clock_measure_fops
  | clock_enable_fops
  | clock_local_fops
  | list_rates_fops
  | fops_u32

text \<open>The private data of a file: a clock, or the address of \<open>debug_suspend\<close>.\<close>
datatype fdata = Data_clk clk | Data_debug_suspend

datatype dnode =
  Dir dentry string "dnode list"
  | File dentry string "16 word" fdata fops

text \<open>What can go wrong in C without an error code.\<close>
datatype fault =
  Stale_dentry
  | Temp_overrun
  | Null_call
  | Null_list

text \<open>
  The state: the driver state, the calls made so far, the kernel log, the debugfs
  tree with the next free handle and the number of creation attempts, and the three
  static variables of the file. \<open>clocks_ptr\<close> holds the list the head points to.
\<close>
record 'w state =
  world :: 'w
  calls :: "call list"
  klog :: "kmsg list"
  dentries :: "dnode list"
  next_dentry :: dentry
  attempts :: nat
  debugfs_base :: "dentry option"
  debug_suspend :: u32
  clocks_ptr :: "clk list option"

definition ENOMEM :: int where
  "ENOMEM = 12"

definition S_IRUGO :: "16 word" where
  "S_IRUGO = 0x124"

definition S_IWUSR :: "16 word" where
  "S_IWUSR = 0x80"

definition bindF :: "fault + 'a \<Rightarrow> ('a \<Rightarrow> fault + 'b) \<Rightarrow> fault + 'b" where
  "bindF m k = (case m of Inl f \<Rightarrow> Inl f | Inr x \<Rightarrow> k x)"

subsection \<open>Calls into the clock framework\<close>

definition ops_of :: "'w env \<Rightarrow> clk \<Rightarrow> 'w clk_ops" where
  "ops_of e clock = ops_mem e (ops clock)"

definition do_clk_set_rate :: "'w env \<Rightarrow> clk \<Rightarrow> u64 \<Rightarrow> 'w state \<Rightarrow> int \<times> 'w state" where
  "do_clk_set_rate e clock val s =
     (let (r, w) = clk_set_rate e clock val (world s)
      in (r, s\<lparr>world := w, calls := calls s @ [Clk_set_rate clock val r]\<rparr>))"

definition do_clk_set_min_rate :: "'w env \<Rightarrow> clk \<Rightarrow> u64 \<Rightarrow> 'w state \<Rightarrow> int \<times> 'w state" where
  "do_clk_set_min_rate e clock val s =
     (let (r, w) = clk_set_min_rate e clock val (world s)
      in (r, s\<lparr>world := w, calls := calls s @ [Clk_set_min_rate clock val r]\<rparr>))"

definition do_clk_set_max_rate :: "'w env \<Rightarrow> clk \<Rightarrow> u64 \<Rightarrow> 'w state \<Rightarrow> int \<times> 'w state" where
  "do_clk_set_max_rate e clock val s =
     (let (r, w) = clk_set_max_rate e clock val (world s)
      in (r, s\<lparr>world := w, calls := calls s @ [Clk_set_max_rate clock val r]\<rparr>))"

definition do_clk_get_rate :: "'w env \<Rightarrow> clk \<Rightarrow> 'w state \<Rightarrow> u64 \<times> 'w state" where
  "do_clk_get_rate e clock s =
     (let (r, w) = clk_get_rate e clock (world s)
      in (r, s\<lparr>world := w, calls := calls s @ [Clk_get_rate clock r]\<rparr>))"

definition do_enable :: "'w env \<Rightarrow> clk \<Rightarrow> 'w state \<Rightarrow> int \<times> 'w state" where
  "do_enable e clock s =
     (let (r, w) = enable (ops_of e clock) (id_clk clock) (world s)
      in (r, s\<lparr>world := w, calls := calls s @ [Op_enable (ops clock) (id_clk clock) r]\<rparr>))"

definition do_disable :: "'w env \<Rightarrow> clk \<Rightarrow> 'w state \<Rightarrow> 'w state" where
  "do_disable e clock s =
     s\<lparr>world := disable (ops_of e clock) (id_clk clock) (world s),
       calls := calls s @ [Op_disable (ops clock) (id_clk clock)]\<rparr>"

definition do_is_enabled :: "'w env \<Rightarrow> clk \<Rightarrow> 'w state \<Rightarrow> u64 \<times> 'w state" where
  "do_is_enabled e clock s =
     (let (r, w) = is_enabled (ops_of e clock) (id_clk clock) (world s)
      in (r, s\<lparr>world := w,
               calls := calls s @ [Op_is_enabled (ops clock) (id_clk clock) r]\<rparr>))"

definition do_measure_rate ::
  "(u32 \<Rightarrow> 'w \<Rightarrow> u64 \<times> 'w) \<Rightarrow> clk \<Rightarrow> 'w state \<Rightarrow> u64 \<times> 'w state" where
  "do_measure_rate f clock s =
     (let (r, w) = f (id_clk clock) (world s)
      in (r, s\<lparr>world := w, calls := calls s @ [Op_measure_rate (id_clk clock) r]\<rparr>))"


definition printk :: "kmsg \<Rightarrow> 'w state \<Rightarrow> 'w state" where
  "printk m s = s\<lparr>klog := klog s @ [m]\<rparr>"

subsection \<open>The attribute handlers\<close>

definition clock_debug_rate_set :: "'w env \<Rightarrow> clk \<Rightarrow> u64 \<Rightarrow> 'w state \<Rightarrow> int \<times> 'w state" where
  "clock_debug_rate_set e clock val s =
     (let s1 = (if flags clock AND CLK_MAX e \<noteq> 0
                then snd (do_clk_set_max_rate e clock val s) else s);
          (ret, s2) = (if flags clock AND CLK_MIN e \<noteq> 0
                       then do_clk_set_min_rate e clock val s1
                       else do_clk_set_rate e clock val s1);
          s3 = (if ret \<noteq> 0
                then printk (Msg_set_rate_failed (flags clock AND CLK_MIN e \<noteq> 0) ret) s2
                else s2)
      in (ret, s3))"

text \<open>A get handler returns its return code, the value stored through \<open>val\<close>, and the state.\<close>

definition clock_debug_rate_get :: "'w env \<Rightarrow> clk \<Rightarrow> 'w state \<Rightarrow> int \<times> u64 \<times> 'w state" where
  "clock_debug_rate_get e clock s =
     (let (r, s1) = do_clk_get_rate e clock s in (0, r, s1))"

definition clock_debug_measure_get ::
  "'w env \<Rightarrow> clk \<Rightarrow> 'w state \<Rightarrow> fault + int \<times> u64 \<times> 'w state" where
  "clock_debug_measure_get e clock s =
     (case measure_rate (ops_of e clock) of
        None \<Rightarrow> Inl Null_call
      | Some f \<Rightarrow> (let (r, s1) = do_measure_rate f clock s in Inr (0, r, s1)))"

definition clock_debug_enable_set :: "'w env \<Rightarrow> clk \<Rightarrow> u64 \<Rightarrow> 'w state \<Rightarrow> int \<times> 'w state" where
  "clock_debug_enable_set e clock val s =
     (if val \<noteq> 0 then do_enable e clock s else (0, do_disable e clock s))"

definition clock_debug_enable_get :: "'w env \<Rightarrow> clk \<Rightarrow> 'w state \<Rightarrow> int \<times> u64 \<times> 'w state" where
  "clock_debug_enable_get e clock s =
     (let (r, s1) = do_is_enabled e clock s in (0, r, s1))"

definition clock_debug_local_get :: "'w env \<Rightarrow> clk \<Rightarrow> 'w state \<Rightarrow> int \<times> u64 \<times> 'w state" where
  "clock_debug_local_get e clock s =
     (0, if ops clock \<noteq> clk_ops_remote e then 1 else 0, s)"

text \<open>
  \<open>DEFINE_SIMPLE_ATTRIBUTE(fops, get, set, fmt)\<close>: the get and the set handler of an
  attribute, either of which may be NULL.
\<close>
record 'w simple_attr =
  attr_get :: "(clk \<Rightarrow> 'w state \<Rightarrow> fault + int \<times> u64 \<times> 'w state) option"
  attr_set :: "(clk \<Rightarrow> u64 \<Rightarrow> 'w state \<Rightarrow> int \<times> 'w state) option"

fun simple_attr_of :: "'w env \<Rightarrow> fops \<Rightarrow> 'w simple_attr option" where
  "simple_attr_of e clock_rate_fops =
     Some \<lparr>attr_get = Some (\<lambda>c s. Inr (clock_debug_rate_get e c s)),
           attr_set = Some (clock_debug_rate_set e)\<rparr>"
| "simple_attr_of e clock_measure_fops =
     Some \<lparr>attr_get = Some (clock_debug_measure_get e), attr_set = None\<rparr>"
| "simple_attr_of e clock_enable_fops =
     Some \<lparr>attr_get = Some (\<lambda>c s. Inr (clock_debug_enable_get e c s)),
           attr_set = Some (clock_debug_enable_set e)\<rparr>"
| "simple_attr_of e clock_local_fops =
     Some \<lparr>attr_get = Some (\<lambda>c s. Inr (clock_debug_local_get e c s)), attr_set = None\<rparr>"
| "simple_attr_of e list_rates_fops = None"
| "simple_attr_of e fops_u32 = None"

subsection \<open>The debugfs tree\<close>

text \<open>
  Modelled from the spec: debugfs (fs/debugfs, not under src/). Creating a directory or
  a file either fails, returning NULL, or adds one entry below its parent (at the top
  level when the parent is NULL); \<open>debugfs_remove_recursive\<close> removes an entry with
  everything below it. Passing a handle that is no longer in the tree is a fault.
\<close>

fun dentry_of :: "dnode \<Rightarrow> dentry" where
  "dentry_of (Dir d n ch) = d"
| "dentry_of (File d n m p f) = d"

fun ids :: "dnode \<Rightarrow> dentry list" where
  "ids (Dir d n ch) = d # concat (map ids ch)"
| "ids (File d n m p f) = [d]"

definition ids_forest :: "dnode list \<Rightarrow> dentry list" where
  "ids_forest ts = concat (map ids ts)"

fun lookup_node :: "dentry \<Rightarrow> dnode \<Rightarrow> dnode option"
  and lookup_forest :: "dentry \<Rightarrow> dnode list \<Rightarrow> dnode option" where
  "lookup_node d (Dir i n ch) = (if i = d then Some (Dir i n ch) else lookup_forest d ch)"
| "lookup_node d (File i n m p f) = (if i = d then Some (File i n m p f) else None)"
| "lookup_forest d [] = None"
| "lookup_forest d (t # ts) =
     (case lookup_node d t of Some x \<Rightarrow> Some x | None \<Rightarrow> lookup_forest d ts)"

definition is_dir :: "dentry \<Rightarrow> dnode list \<Rightarrow> bool" where
  "is_dir d ts = (case lookup_forest d ts of Some (Dir i n ch) \<Rightarrow> True | _ \<Rightarrow> False)"

fun insert_under :: "dentry \<Rightarrow> dnode \<Rightarrow> dnode \<Rightarrow> dnode" where
  "insert_under p c (Dir i n ch) =
     (if i = p then Dir i n (ch @ [c]) else Dir i n (map (insert_under p c) ch))"
| "insert_under p c (File i n m q f) = File i n m q f"

fun prune :: "dentry \<Rightarrow> dnode \<Rightarrow> dnode" where
  "prune d (Dir i n ch) = Dir i n (map (prune d) (filter (\<lambda>t. dentry_of t \<noteq> d) ch))"
| "prune d (File i n m q f) = File i n m q f"

definition remove_tree :: "dentry \<Rightarrow> dnode list \<Rightarrow> dnode list" where
  "remove_tree d ts = map (prune d) (filter (\<lambda>t. dentry_of t \<noteq> d) ts)"

text \<open>
  One creation attempt: \<open>mk\<close> builds the entry from its new handle. The attempt is
  counted whether or not it succeeds.
\<close>
definition debugfs_create ::
  "'w env \<Rightarrow> (dentry \<Rightarrow> dnode) \<Rightarrow> dentry option \<Rightarrow> 'w state \<Rightarrow> fault + dentry option \<times> 'w state" where
  "debugfs_create e mk parent s =
     (let d = next_dentry s; s0 = s\<lparr>attempts := Suc (attempts s)\<rparr> in
      case parent of
        None \<Rightarrow>
          if alloc_ok e (attempts s)
          then Inr (Some d, s0\<lparr>dentries := dentries s @ [mk d], next_dentry := Suc d\<rparr>)
          else Inr (None, s0)
      | Some p \<Rightarrow>
          if \<not> is_dir p (dentries s) then Inl Stale_dentry
          else if alloc_ok e (attempts s)
          then Inr (Some d, s0\<lparr>dentries := map (insert_under p (mk d)) (dentries s),
                                next_dentry := Suc d\<rparr>)
          else Inr (None, s0))"

definition debugfs_create_dir ::
  "'w env \<Rightarrow> string \<Rightarrow> dentry option \<Rightarrow> 'w state \<Rightarrow> fault + dentry option \<times> 'w state" where
  "debugfs_create_dir e name parent s = debugfs_create e (\<lambda>d. Dir d name []) parent s"

definition debugfs_create_file ::
  "'w env \<Rightarrow> string \<Rightarrow> 16 word \<Rightarrow> dentry option \<Rightarrow> fdata \<Rightarrow> fops \<Rightarrow> 'w state
    \<Rightarrow> fault + dentry option \<times> 'w state" where
  "debugfs_create_file e name mode parent data fo s =
     debugfs_create e (\<lambda>d. File d name mode data fo) parent s"

definition debugfs_create_u32 ::
  "'w env \<Rightarrow> string \<Rightarrow> 16 word \<Rightarrow> dentry option \<Rightarrow> fdata \<Rightarrow> 'w state
    \<Rightarrow> fault + dentry option \<times> 'w state" where
  "debugfs_create_u32 e name mode parent var s =
     debugfs_create_file e name mode parent var fops_u32 s"

definition debugfs_remove_recursive :: "dentry \<Rightarrow> 'w state \<Rightarrow> fault + 'w state" where
  "debugfs_remove_recursive d s =
     (if lookup_forest d (dentries s) = None then Inl Stale_dentry
      else Inr (s\<lparr>dentries := remove_tree d (dentries s)\<rparr>))"

subsection \<open>Initialisation and the suspend log\<close>

definition clock_debug_init :: "'w env \<Rightarrow> clk list \<Rightarrow> 'w state \<Rightarrow> fault + int \<times> 'w state" where
  "clock_debug_init e head s =
     bindF (debugfs_create_dir e ''clk'' None s) (\<lambda>(base, s1).
       let s2 = s1\<lparr>debugfs_base := base\<rparr> in
       case base of
         None \<Rightarrow> Inr (- ENOMEM, s2)
       | Some b \<Rightarrow>
           bindF (debugfs_create_u32 e ''debug_suspend'' (S_IRUGO OR S_IWUSR) (Some b)
                    Data_debug_suspend s2) (\<lambda>(f, s3).
             if f = None
             then bindF (debugfs_remove_recursive b s3) (\<lambda>s4. Inr (- ENOMEM, s4))
             else Inr (0, s3\<lparr>clocks_ptr := Some head\<rparr>)))"

text \<open>
  The body of \<open>list_for_each_entry\<close> in \<open>clock_debug_print_enabled\<close>. The counter
  \<open>cnt\<close> is a C \<open>int\<close>; it is an unbounded integer here, since a list of \<open>2^31\<close>
  clocks does not fit the address space.
\<close>
fun print_enabled_loop :: "'w env \<Rightarrow> clk list \<Rightarrow> int \<Rightarrow> 'w state \<Rightarrow> int \<times> 'w state" where
  "print_enabled_loop e [] cnt s = (cnt, s)"
| "print_enabled_loop e (clk # rest) cnt s =
     (let (r, s1) = do_is_enabled e clk s in
      if r \<noteq> 0
      then print_enabled_loop e rest (cnt + 1) (printk (Msg_clock_name (dbg_name clk)) s1)
      else print_enabled_loop e rest cnt s1)"

definition clock_debug_print_enabled :: "'w env \<Rightarrow> 'w state \<Rightarrow> fault + 'w state" where
  "clock_debug_print_enabled e s =
     (if debug_suspend s = 0 then Inr s
      else
        let s1 = printk Msg_enabled_clocks s in
        case clocks_ptr s1 of
          None \<Rightarrow> Inl Null_list
        | Some clocks \<Rightarrow>
            (let (cnt, s2) = print_enabled_loop e clocks 0 s1 in
             if cnt \<noteq> 0 then Inr (printk (Msg_enabled_count cnt) s2)
             else Inr (printk Msg_no_clocks_enabled s2)))"

subsection \<open>Listing the rates\<close>





subsection \<open>Registering a clock\<close>

definition NUL :: char where
  "NUL = CHR 0x00"

text \<open>The C string stored in a sequence of bytes: what precedes the first NUL.\<close>
definition cstr :: "string \<Rightarrow> string" where
  "cstr bytes = takeWhile (\<lambda>c. c \<noteq> NUL) bytes"

text \<open>
  Modelled from the spec: \<open>strncpy\<close> of lib/string.c (not under src/) writes exactly
  \<open>n\<close> bytes to the destination: the string, cut at \<open>n\<close> bytes, then NULs.
\<close>
definition strncpy :: "string \<Rightarrow> string \<Rightarrow> nat \<Rightarrow> string" where
  "strncpy dest src n =
     take n (cstr src) @ replicate (n - length (cstr src)) NUL @ drop n dest"

text \<open>
  \<open>for (ptr = temp; *ptr; ptr++) *ptr = tolower(*ptr);\<close> over the bytes from \<open>ptr\<close> to
  the end of \<open>temp\<close>. Reading past the end of the array is a fault.
\<close>
fun lower_loop :: "(char \<Rightarrow> char) \<Rightarrow> string \<Rightarrow> fault + string" where
  "lower_loop lower [] = Inl Temp_overrun"
| "lower_loop lower (c # cs) =
     (if c = NUL then Inr (c # cs)
      else bindF (lower_loop lower cs) (\<lambda>r. Inr (lower c # r)))"

text \<open>
  The contents of \<open>temp\<close> when the directory is created. \<open>temp\<close> is not initialised:
  \<open>uninit\<close> gives the byte found at each index.
\<close>
definition clk_dir_temp :: "'w env \<Rightarrow> (nat \<Rightarrow> char) \<Rightarrow> clk \<Rightarrow> fault + string" where
  "clk_dir_temp e uninit clock =
     lower_loop (tolower e) (strncpy (map uninit [0..<50]) (dbg_name clock) (50 - 1))"

text \<open>The \<open>error\<close> label.\<close>
definition error_exit :: "dentry \<Rightarrow> 'w state \<Rightarrow> fault + int \<times> 'w state" where
  "error_exit clk_dir s =
     bindF (debugfs_remove_recursive clk_dir s) (\<lambda>s'. Inr (- ENOMEM, s'))"

text \<open>Lines 198 to 206: the \<open>list_rates\<close> file and the return.\<close>
definition add_list_rates :: "'w env \<Rightarrow> clk \<Rightarrow> dentry \<Rightarrow> 'w state \<Rightarrow> fault + int \<times> 'w state" where
  "add_list_rates e clock clk_dir s =
     (if list_rate (ops_of e clock) \<noteq> None
      then bindF (debugfs_create_file e ''list_rates'' S_IRUGO (Some clk_dir)
                    (Data_clk clock) list_rates_fops s) (\<lambda>(f, s1).
             if f = None then error_exit clk_dir s1 else Inr (0, s1))
      else Inr (0, s))"

text \<open>Lines 193 to 196: the \<open>measure\<close> file.\<close>
definition add_measure :: "'w env \<Rightarrow> clk \<Rightarrow> dentry \<Rightarrow> 'w state \<Rightarrow> fault + int \<times> 'w state" where
  "add_measure e clock clk_dir s =
     (if measure_rate (ops_of e clock) \<noteq> None
      then bindF (debugfs_create_file e ''measure'' S_IRUGO (Some clk_dir)
                    (Data_clk clock) clock_measure_fops s) (\<lambda>(f, s1).
             if f = None then error_exit clk_dir s1 else add_list_rates e clock clk_dir s1)
      else add_list_rates e clock clk_dir s)"

text \<open>Lines 181 to 191: the three files every clock has.\<close>
definition add_files :: "'w env \<Rightarrow> clk \<Rightarrow> dentry \<Rightarrow> 'w state \<Rightarrow> fault + int \<times> 'w state" where
  "add_files e clock clk_dir s =
     bindF (debugfs_create_file e ''rate'' (S_IRUGO OR S_IWUSR) (Some clk_dir)
              (Data_clk clock) clock_rate_fops s) (\<lambda>(f, s1).
       if f = None then error_exit clk_dir s1
       else bindF (debugfs_create_file e ''enable'' (S_IRUGO OR S_IWUSR) (Some clk_dir)
                     (Data_clk clock) clock_enable_fops s1) (\<lambda>(f, s2).
         if f = None then error_exit clk_dir s2
         else bindF (debugfs_create_file e ''is_local'' S_IRUGO (Some clk_dir)
                       (Data_clk clock) clock_local_fops s2) (\<lambda>(f, s3).
           if f = None then error_exit clk_dir s3
           else add_measure e clock clk_dir s3)))"

definition clock_debug_add ::
  "'w env \<Rightarrow> (nat \<Rightarrow> char) \<Rightarrow> clk \<Rightarrow> 'w state \<Rightarrow> fault + int \<times> 'w state" where
  "clock_debug_add e uninit clock s =
     (case debugfs_base s of
        None \<Rightarrow> Inr (- ENOMEM, s)
      | Some base \<Rightarrow>
          bindF (clk_dir_temp e uninit clock) (\<lambda>temp.
            bindF (debugfs_create_dir e (cstr temp) (Some base) s) (\<lambda>(clk_dir, s1).
              case clk_dir of
                None \<Rightarrow> Inr (- ENOMEM, s1)
              | Some d \<Rightarrow> add_files e clock d s1)))"

subsection \<open>Notions used in the statements\<close>

text \<open>Every handle in the tree is older than the next handle to be given out.\<close>
definition dentries_fresh :: "'w state \<Rightarrow> bool" where
  "dentries_fresh s = (\<forall>i \<in> set (ids_forest (dentries s)). i < next_dentry s)"

text \<open>
  Asking each clock of a list, in the order of the list, whether it is enabled, each
  through its own operation table and with its own id: the answers, and the driver
  state after the last one.
\<close>
fun is_enabled_scan :: "'w env \<Rightarrow> clk list \<Rightarrow> 'w \<Rightarrow> u64 list \<times> 'w" where
  "is_enabled_scan e [] w = ([], w)"
| "is_enabled_scan e (c # cs) w =
     (let (r, w1) = is_enabled (ops_mem e (ops c)) (id_clk c) w;
          (rs, w2) = is_enabled_scan e cs w1
      in (r # rs, w2))"

text \<open>What a file was created with: name, mode, private data and operations.\<close>
type_synonym file_args = "string \<times> 16 word \<times> fdata \<times> fops"

fun file_entry :: "dnode \<Rightarrow> file_args option" where
  "file_entry (Dir d n ch) = None"
| "file_entry (File d n m p f) = Some (n, m, p, f)"

text \<open>
  The tree \<open>T\<close> is the tree \<open>T0\<close> with one more directory below the directory \<open>p\<close>:
  it has the new handle \<open>d\<close> and the name \<open>nm\<close>, and holds the files \<open>L\<close> in this
  order.
\<close>
definition clk_dir_holds ::
  "dnode list \<Rightarrow> dentry \<Rightarrow> dentry \<Rightarrow> string \<Rightarrow> file_args list \<Rightarrow> dnode list \<Rightarrow> bool" where
  "clk_dir_holds T0 p d nm L T =
     (d \<notin> set (ids_forest T0) \<and> is_dir p T0 \<and>
      (\<exists>fs. T = map (insert_under p (Dir d nm fs)) T0 \<and> map file_entry fs = map Some L))"

text \<open>Two states that differ at most in the debugfs tree and its counters.\<close>
definition same_but_debugfs :: "'w state \<Rightarrow> 'w state \<Rightarrow> bool" where
  "same_but_debugfs s s' =
     (world s' = world s \<and> calls s' = calls s \<and> klog s' = klog s \<and>
      debugfs_base s' = debugfs_base s \<and> debug_suspend s' = debug_suspend s \<and>
      clocks_ptr s' = clocks_ptr s)"

text \<open>
  Whether the creation attempts from the \<open>a\<close>-th on succeed as far as the three stages
  of \<open>clock_debug_add\<close> make them.
\<close>
definition list_rates_ok :: "'w env \<Rightarrow> clk \<Rightarrow> nat \<Rightarrow> bool" where
  "list_rates_ok e clock a = (list_rate (ops_of e clock) \<noteq> None \<longrightarrow> alloc_ok e a)"

definition measure_ok :: "'w env \<Rightarrow> clk \<Rightarrow> nat \<Rightarrow> bool" where
  "measure_ok e clock a =
     ((measure_rate (ops_of e clock) \<noteq> None \<longrightarrow> alloc_ok e a) \<and>
      list_rates_ok e clock (if measure_rate (ops_of e clock) \<noteq> None then Suc a else a))"

definition files_ok :: "'w env \<Rightarrow> clk \<Rightarrow> nat \<Rightarrow> bool" where
  "files_ok e clock a =
     (alloc_ok e a \<and> alloc_ok e (Suc a) \<and> alloc_ok e (Suc (Suc a)) \<and>
      measure_ok e clock (Suc (Suc (Suc a))))"

text \<open>The files of a registered clock.\<close>
definition list_rates_files :: "'w env \<Rightarrow> clk \<Rightarrow> file_args list" where
  "list_rates_files e clock =
     (if list_rate (ops_of e clock) \<noteq> None
      then [(''list_rates'', S_IRUGO, Data_clk clock, list_rates_fops)] else [])"

definition measure_files :: "'w env \<Rightarrow> clk \<Rightarrow> file_args list" where
  "measure_files e clock =
     (if measure_rate (ops_of e clock) \<noteq> None
      then [(''measure'', S_IRUGO, Data_clk clock, clock_measure_fops)] else [])"

definition clk_files :: "'w env \<Rightarrow> clk \<Rightarrow> file_args list" where
  "clk_files e clock =
     [(''rate'', S_IRUGO OR S_IWUSR, Data_clk clock, clock_rate_fops),
      (''enable'', S_IRUGO OR S_IWUSR, Data_clk clock, clock_enable_fops),
      (''is_local'', S_IRUGO, Data_clk clock, clock_local_fops)]
     @ measure_files e clock @ list_rates_files e clock"

text \<open>The number of files \<open>clock_debug_add\<close> sets out to create for a clock.\<close>
definition file_attempts :: "'w env \<Rightarrow> clk \<Rightarrow> nat" where
  "file_attempts e clock =
     3 + (if measure_rate (ops_of e clock) \<noteq> None then 1 else 0)
       + (if list_rate (ops_of e clock) \<noteq> None then 1 else 0)"



subsection \<open>A sample configuration\<close>

text \<open>
  A framework with one table of local operations and the remote table, a clock with
  \<open>CLK_MAX\<close> set, the state before \<open>clock_debug_init\<close> and the state after it.
\<close>

definition ex_tolower :: "char \<Rightarrow> char" where
  "ex_tolower c =
     (if 65 \<le> (of_char c :: nat) \<and> (of_char c :: nat) \<le> 90
      then char_of (of_char c + 32 :: nat) else c)"

text \<open>Three rates, then the sentinel.\<close>
definition ex_list_rate :: "u32 \<Rightarrow> u32 \<Rightarrow> nat \<Rightarrow> int \<times> nat" where
  "ex_list_rate i n w = (if n < 3 then 1000 * (uint n + 1) else - 1, w)"

text \<open>
  The local table enables the clocks of odd id and counts its calls in the driver
  state; the remote table refuses \<open>enable\<close> and answers \<open>is_enabled\<close> from the driver
  state.
\<close>
definition ex_ops_local :: "nat clk_ops" where
  "ex_ops_local =
     \<lparr>enable = (\<lambda>i w. (0, Suc w)),
      disable = (\<lambda>i w. w - 1),
      is_enabled = (\<lambda>i w. (ucast (i AND 1), Suc w)),
      measure_rate = Some (\<lambda>i w. (19200000, w)),
      list_rate = Some ex_list_rate\<rparr>"

definition ex_ops_remote :: "nat clk_ops" where
  "ex_ops_remote =
     \<lparr>enable = (\<lambda>i w. (- 1, w)),
      disable = (\<lambda>i w. w),
      is_enabled = (\<lambda>i w. (of_nat w, w + 2)),
      measure_rate = None,
      list_rate = None\<rparr>"

definition ex_env :: "nat env" where
  "ex_env =
     \<lparr>ops_mem = (\<lambda>p. if p = 0 then ex_ops_remote else ex_ops_local),
      clk_ops_remote = 0,
      CLK_MIN = 0x400,
      CLK_MAX = 0x800,
      clk_set_rate = (\<lambda>c v w. (0, w)),
      clk_set_min_rate = (\<lambda>c v w. (0, w)),
      clk_set_max_rate = (\<lambda>c v w. (- 1, w)),
      clk_get_rate = (\<lambda>c w. (27000000, w)),
      tolower = ex_tolower,
      alloc_ok = (\<lambda>n. True)\<rparr>"

text \<open>The same surroundings, with the creation attempt number 10 failing.\<close>
definition ex_env_fail :: "nat env" where
  "ex_env_fail = ex_env\<lparr>alloc_ok := (\<lambda>n. n \<noteq> 10)\<rparr>"

definition ex_clk :: clk where
  "ex_clk = \<lparr>id_clk = 5, flags = 0x800, dbg_name = ''UART1_CLK'', ops = 1\<rparr>"

definition ex_clk_remote :: clk where
  "ex_clk_remote = \<lparr>id_clk = 8, flags = 0, dbg_name = ''Ebi1_Clk'', ops = 0\<rparr>"

definition ex_clk_long :: clk where
  "ex_clk_long = \<lparr>id_clk = 6, flags = 0, dbg_name = replicate 50 (CHR ''A''), ops = 1\<rparr>"

definition ex_clk_49 :: clk where
  "ex_clk_49 = \<lparr>id_clk = 7, flags = 0, dbg_name = replicate 49 (CHR ''A''), ops = 1\<rparr>"

text \<open>Stack contents for \<open>temp\<close>: all NUL, and all \<open>x\<close>.\<close>
definition ex_uninit :: "nat \<Rightarrow> char" where
  "ex_uninit n = NUL"

definition ex_uninit_x :: "nat \<Rightarrow> char" where
  "ex_uninit_x n = CHR ''x''"

definition ex_state :: "nat state" where
  "ex_state =
     \<lparr>world = 0, calls = [], klog = [], dentries = [], next_dentry = 0, attempts = 0,
      debugfs_base = None, debug_suspend = 0, clocks_ptr = None\<rparr>"

definition ex_ready :: "nat state" where
  "ex_ready =
     \<lparr>world = 0, calls = [], klog = [],
      dentries = [Dir 0 ''clk'' [File 1 ''debug_suspend'' 0x1A4 Data_debug_suspend fops_u32]],
      next_dentry = 2, attempts = 2,
      debugfs_base = Some 0, debug_suspend = 1,
      clocks_ptr = Some [ex_clk, ex_clk_remote]\<rparr>"

definition ex_registered_49 :: "nat state" where
  "ex_registered_49 =
     ex_ready\<lparr>dentries :=
        [Dir 0 ''clk''
          [File 1 ''debug_suspend'' 0x1A4 Data_debug_suspend fops_u32,
           Dir 2 (replicate 49 (CHR ''a''))
            [File 3 ''rate'' 0x1A4 (Data_clk ex_clk_49) clock_rate_fops,
             File 4 ''enable'' 0x1A4 (Data_clk ex_clk_49) clock_enable_fops,
             File 5 ''is_local'' 0x124 (Data_clk ex_clk_49) clock_local_fops,
             File 6 ''measure'' 0x124 (Data_clk ex_clk_49) clock_measure_fops,
             File 7 ''list_rates'' 0x124 (Data_clk ex_clk_49) list_rates_fops]]],
        next_dentry := 8, attempts := 8\<rparr>"

text \<open>
  The surroundings in which only the first creation attempt succeeds, and the state
  \<open>clock_debug_init\<close> leaves there.
\<close>
definition ex_env_half :: "nat env" where
  "ex_env_half = ex_env\<lparr>alloc_ok := (\<lambda>n. n = 0)\<rparr>"

definition ex_half :: "nat state" where
  "ex_half = ex_state\<lparr>attempts := 2, next_dentry := 1, debugfs_base := Some 0\<rparr>"

text \<open>A state in which the driver has been used, and a state ready for the suspend log.\<close>

definition ex_busy :: "nat state" where
  "ex_busy = ex_state\<lparr>world := 7\<rparr>"

definition ex_suspend :: "nat state" where
  "ex_suspend = ex_ready\<lparr>clocks_ptr := Some [ex_clk, ex_clk_long, ex_clk_remote]\<rparr>"

text \<open>The states after registering each of the three clocks from \<open>ex_ready\<close>.\<close>

definition ex_registered :: "nat state" where
  "ex_registered =
     ex_ready\<lparr>dentries :=
        [Dir 0 ''clk''
          [File 1 ''debug_suspend'' 0x1A4 Data_debug_suspend fops_u32,
           Dir 2 ''uart1_clk''
            [File 3 ''rate'' 0x1A4 (Data_clk ex_clk) clock_rate_fops,
             File 4 ''enable'' 0x1A4 (Data_clk ex_clk) clock_enable_fops,
             File 5 ''is_local'' 0x124 (Data_clk ex_clk) clock_local_fops,
             File 6 ''measure'' 0x124 (Data_clk ex_clk) clock_measure_fops,
             File 7 ''list_rates'' 0x124 (Data_clk ex_clk) list_rates_fops]]],
        next_dentry := 8, attempts := 8\<rparr>"

definition ex_registered_remote :: "nat state" where
  "ex_registered_remote =
     ex_ready\<lparr>dentries :=
        [Dir 0 ''clk''
          [File 1 ''debug_suspend'' 0x1A4 Data_debug_suspend fops_u32,
           Dir 2 ''ebi1_clk''
            [File 3 ''rate'' 0x1A4 (Data_clk ex_clk_remote) clock_rate_fops,
             File 4 ''enable'' 0x1A4 (Data_clk ex_clk_remote) clock_enable_fops,
             File 5 ''is_local'' 0x124 (Data_clk ex_clk_remote) clock_local_fops]]],
        next_dentry := 6, attempts := 6\<rparr>"

definition ex_registered_long :: "nat state" where
  "ex_registered_long =
     ex_ready\<lparr>dentries :=
        [Dir 0 ''clk''
          [File 1 ''debug_suspend'' 0x1A4 Data_debug_suspend fops_u32,
           Dir 2 (replicate 49 (CHR ''a''))
            [File 3 ''rate'' 0x1A4 (Data_clk ex_clk_long) clock_rate_fops,
             File 4 ''enable'' 0x1A4 (Data_clk ex_clk_long) clock_enable_fops,
             File 5 ''is_local'' 0x124 (Data_clk ex_clk_long) clock_local_fops,
             File 6 ''measure'' 0x124 (Data_clk ex_clk_long) clock_measure_fops,
             File 7 ''list_rates'' 0x124 (Data_clk ex_clk_long) list_rates_fops]]],
        next_dentry := 8, attempts := 8\<rparr>"

section \<open>The attribute files\<close>





lemma calls_printk [simp]: "calls (printk m s) = calls s"
  by (simp add: printk_def)





text \<open>
  C4: a write of a nonzero value to the enable file calls the \<open>enable\<close> operation of the
  table of the clock with the id of the clock, once, and returns what it returns; a
  write of 0 calls the \<open>disable\<close> operation of that table with that id, once, and
  returns 0. A read calls the \<open>is_enabled\<close> operation of that table with that id, once,
  and yields what it returns. In each case the driver state is the one the operation
  leaves, the call is the only one made, and nothing else changes. Both handlers are
  the ones \<open>clock_enable_fops\<close> holds.
\<close>
theorem clock_debug_enable_file:
  "(val \<noteq> 0 \<longrightarrow>
      (\<exists>rc w. enable (ops_mem e (ops clock)) (id_clk clock) (world s) = (rc, w) \<and>
         clock_debug_enable_set e clock val s =
           (rc, s\<lparr>world := w,
                   calls := calls s @ [Op_enable (ops clock) (id_clk clock) rc]\<rparr>))) \<and>
   (val = 0 \<longrightarrow>
      clock_debug_enable_set e clock val s =
        (0, s\<lparr>world := disable (ops_mem e (ops clock)) (id_clk clock) (world s),
                calls := calls s @ [Op_disable (ops clock) (id_clk clock)]\<rparr>)) \<and>
   (\<exists>r w. is_enabled (ops_mem e (ops clock)) (id_clk clock) (world s) = (r, w) \<and>
      clock_debug_enable_get e clock s =
        (0, r, s\<lparr>world := w,
                   calls := calls s @ [Op_is_enabled (ops clock) (id_clk clock) r]\<rparr>)) \<and>
   (\<exists>a. simple_attr_of e clock_enable_fops = Some a \<and>
      attr_set a = Some (clock_debug_enable_set e) \<and>
      attr_get a = Some (\<lambda>c s. Inr (clock_debug_enable_get e c s)))"
  by (simp add: clock_debug_enable_set_def clock_debug_enable_get_def do_enable_def
      do_disable_def do_is_enabled_def ops_of_def split: prod.splits)

text \<open>
  C4 at the sample clock, for a write of 1, a write of 0 and a read, from a driver
  state in which the table of the clock and the remote table answer differently.
\<close>
theorem clock_debug_enable_file_witness:
  "enable (ops_mem ex_env (ops ex_clk)) (id_clk ex_clk) (world ex_busy) = (0, 8) \<and>
   clock_debug_enable_set ex_env ex_clk 1 ex_busy =
     (0, ex_busy\<lparr>world := 8, calls := [Op_enable 1 5 0]\<rparr>) \<and>
   disable (ops_mem ex_env (ops ex_clk)) (id_clk ex_clk) (world ex_busy) = 6 \<and>
   clock_debug_enable_set ex_env ex_clk 0 ex_busy =
     (0, ex_busy\<lparr>world := 6, calls := [Op_disable 1 5]\<rparr>) \<and>
   is_enabled (ops_mem ex_env (ops ex_clk)) (id_clk ex_clk) (world ex_busy) = (1, 8) \<and>
   clock_debug_enable_get ex_env ex_clk ex_busy =
     (0, 1, ex_busy\<lparr>world := 8, calls := [Op_is_enabled 1 5 1]\<rparr>)"
  using clock_debug_enable_file [of 1 ex_env ex_clk ex_busy]
    clock_debug_enable_file [of 0 ex_env ex_clk ex_busy]
  by (simp add: ex_env_def ex_clk_def ex_busy_def ex_state_def ex_ops_local_def)

text \<open>
  C5: a read of the is_local file yields 1 exactly when the operation table of the clock
  is not \<open>clk_ops_remote\<close> and 0 exactly when it is; it calls nothing and changes
  nothing. \<open>clock_local_fops\<close> has this get handler and no set handler.
\<close>
theorem clock_debug_is_local_file:
  "(\<exists>v. clock_debug_local_get e clock s = (0, v, s) \<and>
      (v = 1 \<longleftrightarrow> ops clock \<noteq> clk_ops_remote e) \<and>
      (v = 0 \<longleftrightarrow> ops clock = clk_ops_remote e)) \<and>
   (\<exists>a. simple_attr_of e clock_local_fops = Some a \<and>
      attr_set a = None \<and>
      attr_get a = Some (\<lambda>c s. Inr (clock_debug_local_get e c s)))"
  by (simp add: clock_debug_local_get_def)

text \<open>C5 at a local and at a remote clock.\<close>
theorem clock_debug_is_local_file_witness:
  "clock_debug_local_get ex_env ex_clk ex_state = (0, 1, ex_state) \<and>
   clock_debug_local_get ex_env ex_clk_remote ex_state = (0, 0, ex_state)"
  using clock_debug_is_local_file [of ex_env ex_clk ex_state]
    clock_debug_is_local_file [of ex_env ex_clk_remote ex_state]
  by (auto simp add: ex_env_def ex_clk_def ex_clk_remote_def)

section \<open>Registration with no root handle\<close>

text \<open>
  With the root directory handle NULL the guard of \<open>clock_debug_add\<close> fires: the
  function returns \<open>-ENOMEM\<close> and leaves the state as it was.
\<close>
lemma clock_debug_add_null_base:
  "debugfs_base s = None \<Longrightarrow> clock_debug_add e uninit clock s = Inr (- ENOMEM, s)"
  by (simp add: clock_debug_add_def)

section \<open>The debugfs tree\<close>

lemma dentry_of_insert_under [simp]: "dentry_of (insert_under p c t) = dentry_of t"
  by (cases t) simp_all

lemma lookup_none_notin:
  "(lookup_node d t = None) = (d \<notin> set (ids t))"
  "(lookup_forest d ts = None) = (d \<notin> set (ids_forest ts))"
  by (induction d t and d ts rule: lookup_node_lookup_forest.induct)
    (auto simp: ids_forest_def split: option.splits)

lemma lookup_node_self [simp]: "lookup_node (dentry_of c) c = Some c"
  by (cases c) simp_all

lemma lookup_forest_append:
  "lookup_forest d (xs @ ys) =
     (case lookup_forest d xs of Some x \<Rightarrow> Some x | None \<Rightarrow> lookup_forest d ys)"
  by (induction xs) (auto split: option.splits)

lemma insert_under_notin: "p \<notin> set (ids t) \<Longrightarrow> insert_under p c t = t"
  by (induction t) (auto simp: map_idI)

lemma dentry_of_in_ids [simp]: "dentry_of t \<in> set (ids t)"
  by (cases t) simp_all

lemma filter_dentry_notin:
  "d \<notin> set (ids_forest ts) \<Longrightarrow> filter (\<lambda>t. dentry_of t \<noteq> d) ts = ts"
  by (induction ts) (auto simp: ids_forest_def)

lemma prune_notin: "d \<notin> set (ids t) \<Longrightarrow> prune d t = t"
proof (induction t)
  case (Dir i n ch)
  then have "d \<notin> set (ids_forest ch)"
    by (simp add: ids_forest_def)
  then have "filter (\<lambda>t. dentry_of t \<noteq> d) ch = ch"
    by (rule filter_dentry_notin)
  then show ?case using Dir by (auto simp: map_idI)
qed simp

lemma remove_tree_notin: "d \<notin> set (ids_forest ts) \<Longrightarrow> remove_tree d ts = ts"
  by (simp add: remove_tree_def filter_dentry_notin) (auto simp: ids_forest_def prune_notin map_idI)

lemma filter_map_insert_under:
  "filter (\<lambda>t. dentry_of t \<noteq> d) (map (insert_under p c) ts) =
   map (insert_under p c) (filter (\<lambda>t. dentry_of t \<noteq> d) ts)"
  by (induction ts) simp_all

text \<open>Adding an entry below \<open>d\<close> is undone by removing \<open>d\<close>.\<close>

lemma prune_insert_under_same:
  "dentry_of t \<noteq> d \<Longrightarrow> prune d (insert_under d c t) = prune d t"
  by (induction t) (auto simp: filter_map_insert_under)

lemma remove_tree_insert_under_same:
  "remove_tree d (map (insert_under d c) ts) = remove_tree d ts"
  by (simp add: remove_tree_def filter_map_insert_under prune_insert_under_same)

text \<open>Adding an entry with a new handle \<open>d\<close> anywhere is undone by removing \<open>d\<close>.\<close>

lemma prune_insert_under_fresh:
  "d \<notin> set (ids t) \<Longrightarrow> dentry_of c = d \<Longrightarrow> prune d (insert_under p c t) = t"
proof (induction t)
  case (Dir i n ch)
  then have ch: "d \<notin> set (ids_forest ch)"
    by (simp add: ids_forest_def)
  show ?case
  proof (cases "i = p")
    case True
    then show ?thesis
      using Dir.prems ch
      by (auto simp: filter_dentry_notin ids_forest_def prune_notin map_idI)
  next
    case False
    then show ?thesis
      using Dir ch
      by (auto simp: filter_map_insert_under filter_dentry_notin ids_forest_def map_idI)
  qed
qed simp

lemma remove_tree_insert_under_fresh:
  "d \<notin> set (ids_forest ts) \<Longrightarrow> dentry_of c = d \<Longrightarrow>
   remove_tree d (map (insert_under p c) ts) = ts"
  by (simp add: remove_tree_def filter_map_insert_under filter_dentry_notin)
    (auto simp: ids_forest_def prune_insert_under_fresh map_idI)

lemma remove_tree_append_fresh:
  "d \<notin> set (ids_forest ts) \<Longrightarrow> dentry_of c = d \<Longrightarrow> remove_tree d (ts @ [c]) = ts"
  using remove_tree_notin [of d ts] by (simp add: remove_tree_def)

text \<open>Looking up a directory after an entry has been added below it.\<close>

lemma lookup_insert_under_same:
  "lookup_node d t = Some (Dir d n ch) \<Longrightarrow>
     lookup_node d (insert_under d c t) = Some (Dir d n (ch @ [c]))"
  "lookup_forest d ts = Some (Dir d n ch) \<Longrightarrow>
     lookup_forest d (map (insert_under d c) ts) = Some (Dir d n (ch @ [c]))"
proof (induction d t and d ts rule: lookup_node_lookup_forest.induct)
  case (4 d t ts)
  show ?case
  proof (cases "lookup_node d t")
    case None
    then have "insert_under d c t = t"
      by (simp add: lookup_none_notin insert_under_notin)
    then show ?thesis using 4 None by simp
  next
    case (Some x)
    then show ?thesis using 4 by simp
  qed
qed (auto split: if_splits)

text \<open>Looking up a new entry after it has been added below a directory.\<close>

lemma lookup_insert_under_fresh:
  "d \<notin> set (ids t) \<Longrightarrow> dentry_of c = d \<Longrightarrow> lookup_node p t = Some (Dir i n ch) \<Longrightarrow>
     lookup_node d (insert_under p c t) = Some c"
  "d \<notin> set (ids_forest ts) \<Longrightarrow> dentry_of c = d \<Longrightarrow> lookup_forest p ts = Some (Dir i n ch) \<Longrightarrow>
     lookup_forest d (map (insert_under p c) ts) = Some c"
proof (induction p t and p ts arbitrary: and rule: lookup_node_lookup_forest.induct)
  case (1 p j m kids)
  show ?case
  proof (cases "j = p")
    case True
    have "lookup_forest d kids = None"
      using 1(2) by (simp add: lookup_none_notin ids_forest_def)
    then show ?thesis
      using True 1(2,3) by (auto simp: lookup_forest_append)
  next
    case False
    then show ?thesis using 1 by (auto simp: ids_forest_def)
  qed
next
  case (4 p t ts)
  show ?case
  proof (cases "lookup_node p t")
    case None
    then have same: "insert_under p c t = t"
      by (simp add: lookup_none_notin insert_under_notin)
    have "lookup_node d t = None"
      using 4(3) by (simp add: lookup_none_notin ids_forest_def)
    then show ?thesis using 4 None same by (simp add: ids_forest_def)
  next
    case (Some x)
    then show ?thesis using 4 by (simp add: ids_forest_def)
  qed
qed (auto split: if_splits)

lemma same_but_debugfs_refl [simp]: "same_but_debugfs s s"
  by (simp add: same_but_debugfs_def)

lemma same_but_debugfs_trans:
  "same_but_debugfs s s1 \<Longrightarrow> same_but_debugfs s1 s2 \<Longrightarrow> same_but_debugfs s s2"
  by (simp add: same_but_debugfs_def)

lemma lookup_dentry_of:
  "lookup_node d t = Some x \<Longrightarrow> dentry_of x = d"
  "lookup_forest d ts = Some x \<Longrightarrow> dentry_of x = d"
  by (induction d t and d ts rule: lookup_node_lookup_forest.induct)
    (auto split: if_splits option.splits)

lemma is_dir_lookup: "is_dir p T \<Longrightarrow> \<exists>n ch. lookup_forest p T = Some (Dir p n ch)"
  by (auto simp: is_dir_def split: option.splits dnode.splits dest: lookup_dentry_of(2))

lemma is_dir_in_ids: "is_dir p T \<Longrightarrow> p \<in> set (ids_forest T)"
  using lookup_none_notin(2) [of p T] by (auto simp: is_dir_def split: option.splits)

text \<open>Adding a file to a directory that has just been added.\<close>

lemma insert_under_new_dir:
  "d \<notin> set (ids t) \<Longrightarrow>
   insert_under d c (insert_under p (Dir d nm fs) t) = insert_under p (Dir d nm (fs @ [c])) t"
  by (induction t) (auto simp: insert_under_notin map_idI)

lemma insert_under_new_dir_forest:
  "d \<notin> set (ids_forest T) \<Longrightarrow>
   map (insert_under d c) (map (insert_under p (Dir d nm fs)) T) =
   map (insert_under p (Dir d nm (fs @ [c]))) T"
  by (simp add: ids_forest_def insert_under_new_dir)

lemma clk_dir_holds_is_dir: "clk_dir_holds T0 p d nm L T \<Longrightarrow> is_dir d T"
  using is_dir_lookup [of p T0]
  by (auto simp: clk_dir_holds_def is_dir_def lookup_insert_under_fresh(2))

lemma clk_dir_holds_lookup:
  "clk_dir_holds T0 p d nm L T \<Longrightarrow> lookup_forest d T \<noteq> None"
  using clk_dir_holds_is_dir [of T0 p d nm L T]
  by (auto simp: is_dir_def split: option.splits)

lemma clk_dir_holds_remove: "clk_dir_holds T0 p d nm L T \<Longrightarrow> remove_tree d T = T0"
  by (auto simp: clk_dir_holds_def remove_tree_insert_under_fresh)

lemma clk_dir_holds_insert:
  assumes "clk_dir_holds T0 p d nm L T"
  shows "clk_dir_holds T0 p d nm (L @ [(name, mode, data, fo)])
           (map (insert_under d (File i name mode data fo)) T)"
proof -
  obtain fs where fs: "d \<notin> set (ids_forest T0)" "is_dir p T0"
    "T = map (insert_under p (Dir d nm fs)) T0" "map file_entry fs = map Some L"
    using assms by (auto simp: clk_dir_holds_def)
  have "map (insert_under d (File i name mode data fo)) T =
      map (insert_under p (Dir d nm (fs @ [File i name mode data fo]))) T0"
    unfolding fs(3) by (rule insert_under_new_dir_forest [OF fs(1)])
  moreover have "map file_entry (fs @ [File i name mode data fo]) =
      map Some (L @ [(name, mode, data, fo)])"
    using fs(4) by simp
  ultimately show ?thesis
    unfolding clk_dir_holds_def using fs(1,2) by blast
qed

lemma create_file_step:
  assumes inv: "clk_dir_holds T0 p d nm L (dentries s)"
  shows "\<exists>s1. same_but_debugfs s s1 \<and> attempts s1 = Suc (attempts s) \<and>
    (if alloc_ok e (attempts s)
     then (\<exists>f. debugfs_create_file e name mode (Some d) data fo s = Inr (Some f, s1)) \<and>
          clk_dir_holds T0 p d nm (L @ [(name, mode, data, fo)]) (dentries s1)
     else debugfs_create_file e name mode (Some d) data fo s = Inr (None, s1) \<and>
          dentries s1 = dentries s)"
proof (cases "alloc_ok e (attempts s)")
  case True
  show ?thesis
    using True clk_dir_holds_is_dir [OF inv]
      clk_dir_holds_insert [OF inv, of name mode data fo "next_dentry s"]
    by (intro exI [of _ "s\<lparr>attempts := Suc (attempts s),
          dentries := map (insert_under d (File (next_dentry s) name mode data fo)) (dentries s),
          next_dentry := Suc (next_dentry s)\<rparr>"])
      (simp add: debugfs_create_file_def debugfs_create_def Let_def same_but_debugfs_def)
next
  case False
  show ?thesis
    using False clk_dir_holds_is_dir [OF inv]
    by (intro exI [of _ "s\<lparr>attempts := Suc (attempts s)\<rparr>"])
      (simp add: debugfs_create_file_def debugfs_create_def Let_def same_but_debugfs_def)
qed

lemma error_exit_step:
  assumes inv: "clk_dir_holds T0 p d nm L (dentries s)"
  shows "error_exit d s = Inr (- ENOMEM, s\<lparr>dentries := T0\<rparr>)"
  using clk_dir_holds_lookup [OF inv] clk_dir_holds_remove [OF inv]
  by (auto simp: error_exit_def debugfs_remove_recursive_def bindF_def)

text \<open>One file of the sequence: on failure the \<open>error\<close> label, on success the rest \<open>K\<close>.\<close>

lemma file_then:
  assumes inv: "clk_dir_holds T0 p d nm L (dentries s)"
  shows "\<exists>s1. same_but_debugfs s s1 \<and> attempts s1 = Suc (attempts s) \<and>
    (if alloc_ok e (attempts s)
     then bindF (debugfs_create_file e name mode (Some d) data fo s)
            (\<lambda>(f, s1). if f = None then error_exit d s1 else K s1) = K s1 \<and>
          clk_dir_holds T0 p d nm (L @ [(name, mode, data, fo)]) (dentries s1)
     else bindF (debugfs_create_file e name mode (Some d) data fo s)
            (\<lambda>(f, s1). if f = None then error_exit d s1 else K s1) = Inr (- ENOMEM, s1) \<and>
          dentries s1 = T0)"
proof -
  obtain s1 where s1: "same_but_debugfs s s1" "attempts s1 = Suc (attempts s)"
    "if alloc_ok e (attempts s)
     then (\<exists>f. debugfs_create_file e name mode (Some d) data fo s = Inr (Some f, s1)) \<and>
          clk_dir_holds T0 p d nm (L @ [(name, mode, data, fo)]) (dentries s1)
     else debugfs_create_file e name mode (Some d) data fo s = Inr (None, s1) \<and>
          dentries s1 = dentries s"
    using create_file_step [OF inv] by blast
  show ?thesis
  proof (cases "alloc_ok e (attempts s)")
    case True
    then show ?thesis
      using s1 by (auto simp: bindF_def)
  next
    case False
    then have inv1: "clk_dir_holds T0 p d nm L (dentries s1)"
      using s1 inv by simp
    have "same_but_debugfs s (s1\<lparr>dentries := T0\<rparr>)"
      using s1(1) by (simp add: same_but_debugfs_def)
    then show ?thesis
      using s1 False error_exit_step [OF inv1]
      by (auto simp: bindF_def intro!: exI [of _ "s1\<lparr>dentries := T0\<rparr>"])
  qed
qed

lemma add_list_rates_step:
  assumes inv: "clk_dir_holds T0 p d nm L (dentries s)"
  shows "\<exists>s'. same_but_debugfs s s' \<and>
    (if list_rates_ok e clock (attempts s)
     then add_list_rates e clock d s = Inr (0, s') \<and>
          clk_dir_holds T0 p d nm (L @ list_rates_files e clock) (dentries s')
     else add_list_rates e clock d s = Inr (- ENOMEM, s') \<and> dentries s' = T0)"
proof (cases "list_rate (ops_of e clock) = None")
  case True
  then show ?thesis
    using inv by (auto simp: add_list_rates_def list_rates_ok_def list_rates_files_def)
next
  case False
  then show ?thesis
    using file_then [OF inv, of e "''list_rates''" S_IRUGO "Data_clk clock" list_rates_fops
        "\<lambda>s1. Inr (0, s1)"]
    by (auto simp: add_list_rates_def list_rates_ok_def list_rates_files_def)
qed

lemma add_measure_step:
  assumes inv: "clk_dir_holds T0 p d nm L (dentries s)"
  shows "\<exists>s'. same_but_debugfs s s' \<and>
    (if measure_ok e clock (attempts s)
     then add_measure e clock d s = Inr (0, s') \<and>
          clk_dir_holds T0 p d nm (L @ measure_files e clock @ list_rates_files e clock)
            (dentries s')
     else add_measure e clock d s = Inr (- ENOMEM, s') \<and> dentries s' = T0)"
proof (cases "measure_rate (ops_of e clock) = None")
  case True
  then have eq: "add_measure e clock d s = add_list_rates e clock d s"
    and ok: "measure_ok e clock (attempts s) = list_rates_ok e clock (attempts s)"
    and mf: "measure_files e clock = []"
    by (simp_all add: add_measure_def measure_ok_def measure_files_def)
  show ?thesis
    unfolding eq ok mf append_Nil by (rule add_list_rates_step [OF inv])
next
  case False
  then have start: "add_measure e clock d s =
      bindF (debugfs_create_file e ''measure'' S_IRUGO (Some d) (Data_clk clock)
        clock_measure_fops s)
        (\<lambda>(f, s1). if f = None then error_exit d s1 else add_list_rates e clock d s1)"
    and mf: "measure_files e clock = [(''measure'', S_IRUGO, Data_clk clock, clock_measure_fops)]"
    by (simp_all add: add_measure_def measure_files_def)
  have "\<exists>s1. same_but_debugfs s s1 \<and> attempts s1 = Suc (attempts s) \<and>
    (if alloc_ok e (attempts s)
     then add_measure e clock d s = add_list_rates e clock d s1 \<and>
          clk_dir_holds T0 p d nm (L @ measure_files e clock) (dentries s1)
     else add_measure e clock d s = Inr (- ENOMEM, s1) \<and> dentries s1 = T0)"
    unfolding start mf by (rule file_then [OF inv])
  then obtain s1 where s1: "same_but_debugfs s s1" "attempts s1 = Suc (attempts s)"
    "if alloc_ok e (attempts s)
     then add_measure e clock d s = add_list_rates e clock d s1 \<and>
          clk_dir_holds T0 p d nm (L @ measure_files e clock) (dentries s1)
     else add_measure e clock d s = Inr (- ENOMEM, s1) \<and> dentries s1 = T0"
    by blast
  show ?thesis
  proof (cases "alloc_ok e (attempts s)")
    case True
    then have inv1: "clk_dir_holds T0 p d nm (L @ measure_files e clock) (dentries s1)"
      and eq: "add_measure e clock d s = add_list_rates e clock d s1"
      using s1 by simp_all
    have ok: "measure_ok e clock (attempts s) = list_rates_ok e clock (attempts s1)"
      using True False s1(2) by (simp add: measure_ok_def)
    show ?thesis
      using add_list_rates_step [OF inv1, of e clock]
      by (auto simp: eq ok dest: same_but_debugfs_trans [OF s1(1)])
  next
    case no: False
    then show ?thesis
      using s1 False by (auto simp: measure_ok_def)
  qed
qed

lemma add_files_step:
  assumes inv: "clk_dir_holds T0 p d nm [] (dentries s)"
  shows "\<exists>s'. same_but_debugfs s s' \<and>
    (if files_ok e clock (attempts s)
     then add_files e clock d s = Inr (0, s') \<and>
          clk_dir_holds T0 p d nm (clk_files e clock) (dentries s')
     else add_files e clock d s = Inr (- ENOMEM, s') \<and> dentries s' = T0)"
proof -
  let ?rate = "(''rate'', S_IRUGO OR S_IWUSR, Data_clk clock, clock_rate_fops)"
  let ?enable = "(''enable'', S_IRUGO OR S_IWUSR, Data_clk clock, clock_enable_fops)"
  let ?local = "(''is_local'', S_IRUGO, Data_clk clock, clock_local_fops)"
  define K3 where "K3 = add_measure e clock d"
  define K2 where "K2 s2 = bindF (debugfs_create_file e ''is_local'' S_IRUGO (Some d)
      (Data_clk clock) clock_local_fops s2)
      (\<lambda>(f, s3). if f = None then error_exit d s3 else K3 s3)" for s2
  define K1 where "K1 s1 = bindF (debugfs_create_file e ''enable'' (S_IRUGO OR S_IWUSR)
      (Some d) (Data_clk clock) clock_enable_fops s1)
      (\<lambda>(f, s2). if f = None then error_exit d s2 else K2 s2)" for s1
  have start: "add_files e clock d s =
      bindF (debugfs_create_file e ''rate'' (S_IRUGO OR S_IWUSR) (Some d)
        (Data_clk clock) clock_rate_fops s)
        (\<lambda>(f, s1). if f = None then error_exit d s1 else K1 s1)"
    unfolding add_files_def K1_def [abs_def] K2_def [abs_def] K3_def by (rule refl)
  have "\<exists>s1. same_but_debugfs s s1 \<and> attempts s1 = Suc (attempts s) \<and>
    (if alloc_ok e (attempts s)
     then add_files e clock d s = K1 s1 \<and> clk_dir_holds T0 p d nm ([] @ [?rate]) (dentries s1)
     else add_files e clock d s = Inr (- ENOMEM, s1) \<and> dentries s1 = T0)"
    unfolding start by (rule file_then [OF inv])
  then obtain s1 where s1: "same_but_debugfs s s1" "attempts s1 = Suc (attempts s)"
    "if alloc_ok e (attempts s)
     then add_files e clock d s = K1 s1 \<and> clk_dir_holds T0 p d nm ([] @ [?rate]) (dentries s1)
     else add_files e clock d s = Inr (- ENOMEM, s1) \<and> dentries s1 = T0"
    by blast
  show ?thesis
  proof (cases "alloc_ok e (attempts s)")
    case False
    then show ?thesis using s1 by (auto simp: files_ok_def)
  next
    case a0: True
    then have inv1: "clk_dir_holds T0 p d nm ([] @ [?rate]) (dentries s1)"
      and eq1: "add_files e clock d s = K1 s1"
      using s1 by simp_all
    have "\<exists>s2. same_but_debugfs s1 s2 \<and> attempts s2 = Suc (attempts s1) \<and>
      (if alloc_ok e (attempts s1)
       then K1 s1 = K2 s2 \<and> clk_dir_holds T0 p d nm (([] @ [?rate]) @ [?enable]) (dentries s2)
       else K1 s1 = Inr (- ENOMEM, s2) \<and> dentries s2 = T0)"
      unfolding K1_def by (rule file_then [OF inv1])
    then obtain s2 where s2: "same_but_debugfs s1 s2" "attempts s2 = Suc (attempts s1)"
      "if alloc_ok e (attempts s1)
       then K1 s1 = K2 s2 \<and> clk_dir_holds T0 p d nm (([] @ [?rate]) @ [?enable]) (dentries s2)
       else K1 s1 = Inr (- ENOMEM, s2) \<and> dentries s2 = T0"
      by blast
    have s02: "same_but_debugfs s s2"
      by (rule same_but_debugfs_trans [OF s1(1) s2(1)])
    show ?thesis
    proof (cases "alloc_ok e (attempts s1)")
      case False
      then show ?thesis
        using s1(2) s2 eq1 s02 by (auto simp: files_ok_def)
    next
      case a1: True
      then have inv2: "clk_dir_holds T0 p d nm (([] @ [?rate]) @ [?enable]) (dentries s2)"
        and eq2: "K1 s1 = K2 s2"
        using s2 by simp_all
      have "\<exists>s3. same_but_debugfs s2 s3 \<and> attempts s3 = Suc (attempts s2) \<and>
        (if alloc_ok e (attempts s2)
         then K2 s2 = K3 s3 \<and>
              clk_dir_holds T0 p d nm ((([] @ [?rate]) @ [?enable]) @ [?local]) (dentries s3)
         else K2 s2 = Inr (- ENOMEM, s3) \<and> dentries s3 = T0)"
        unfolding K2_def by (rule file_then [OF inv2])
      then obtain s3 where s3: "same_but_debugfs s2 s3" "attempts s3 = Suc (attempts s2)"
        "if alloc_ok e (attempts s2)
         then K2 s2 = K3 s3 \<and>
              clk_dir_holds T0 p d nm ((([] @ [?rate]) @ [?enable]) @ [?local]) (dentries s3)
         else K2 s2 = Inr (- ENOMEM, s3) \<and> dentries s3 = T0"
        by blast
      have s03: "same_but_debugfs s s3"
        by (rule same_but_debugfs_trans [OF s02 s3(1)])
      show ?thesis
      proof (cases "alloc_ok e (attempts s2)")
        case False
        then show ?thesis
          using s1(2) s2(2) s3 eq1 eq2 s03 a0 a1
          by (auto simp: files_ok_def)
      next
        case a2: True
        then have inv3: "clk_dir_holds T0 p d nm ([?rate, ?enable, ?local]) (dentries s3)"
          and eq3: "K2 s2 = K3 s3"
          using s3 by simp_all
        have att: "attempts s3 = Suc (Suc (Suc (attempts s)))"
          using s1(2) s2(2) s3(2) by simp
        have all: "add_files e clock d s = add_measure e clock d s3"
          using eq1 eq2 eq3 by (simp add: K3_def)
        have ok: "files_ok e clock (attempts s) = measure_ok e clock (attempts s3)"
          using a0 a1 a2 s1(2) s2(2) att by (simp add: files_ok_def)
        show ?thesis
          using add_measure_step [OF inv3, of e clock]
          by (auto simp: all ok clk_files_def dest: same_but_debugfs_trans [OF s03])
      qed
    qed
  qed
qed

lemma fresh_notin: "dentries_fresh s \<Longrightarrow> next_dentry s \<notin> set (ids_forest (dentries s))"
  by (auto simp: dentries_fresh_def)

lemma create_dir_step:
  assumes fresh: "dentries_fresh s" and base: "is_dir p (dentries s)"
  shows "\<exists>s1. same_but_debugfs s s1 \<and> attempts s1 = Suc (attempts s) \<and>
    (if alloc_ok e (attempts s)
     then debugfs_create_dir e nm (Some p) s = Inr (Some (next_dentry s), s1) \<and>
          clk_dir_holds (dentries s) p (next_dentry s) nm [] (dentries s1)
     else debugfs_create_dir e nm (Some p) s = Inr (None, s1) \<and> dentries s1 = dentries s)"
proof (cases "alloc_ok e (attempts s)")
  case True
  show ?thesis
    using True base fresh_notin [OF fresh]
    by (intro exI [of _ "s\<lparr>attempts := Suc (attempts s),
          dentries := map (insert_under p (Dir (next_dentry s) nm [])) (dentries s),
          next_dentry := Suc (next_dentry s)\<rparr>"])
      (simp add: debugfs_create_dir_def debugfs_create_def Let_def same_but_debugfs_def
        clk_dir_holds_def)
next
  case False
  show ?thesis
    using False base
    by (intro exI [of _ "s\<lparr>attempts := Suc (attempts s)\<rparr>"])
      (simp add: debugfs_create_dir_def debugfs_create_def Let_def same_but_debugfs_def)
qed

lemma clock_debug_add_outcome:
  assumes fresh: "dentries_fresh s"
    and base: "debugfs_base s = Some p" "is_dir p (dentries s)"
    and temp: "clk_dir_temp e uninit clock = Inr temp"
  shows "\<exists>s'. same_but_debugfs s s' \<and>
    (if alloc_ok e (attempts s) \<and> files_ok e clock (Suc (attempts s))
     then clock_debug_add e uninit clock s = Inr (0, s') \<and>
          clk_dir_holds (dentries s) p (next_dentry s) (cstr temp) (clk_files e clock)
            (dentries s')
     else clock_debug_add e uninit clock s = Inr (- ENOMEM, s') \<and> dentries s' = dentries s)"
proof -
  obtain s1 where s1: "same_but_debugfs s s1" "attempts s1 = Suc (attempts s)"
    "if alloc_ok e (attempts s)
     then debugfs_create_dir e (cstr temp) (Some p) s = Inr (Some (next_dentry s), s1) \<and>
          clk_dir_holds (dentries s) p (next_dentry s) (cstr temp) [] (dentries s1)
     else debugfs_create_dir e (cstr temp) (Some p) s = Inr (None, s1) \<and>
          dentries s1 = dentries s"
    using create_dir_step [OF fresh base(2), of e "cstr temp"] by blast
  show ?thesis
  proof (cases "alloc_ok e (attempts s)")
    case False
    then show ?thesis
      using s1 base(1) temp by (auto simp: clock_debug_add_def bindF_def)
  next
    case True
    then have inv: "clk_dir_holds (dentries s) p (next_dentry s) (cstr temp) [] (dentries s1)"
      and eq: "clock_debug_add e uninit clock s = add_files e clock (next_dentry s) s1"
      using s1 base(1) temp by (simp_all add: clock_debug_add_def bindF_def)
    show ?thesis
      using add_files_step [OF inv, of e clock] True
      by (auto simp: eq s1(2) dest: same_but_debugfs_trans [OF s1(1)])
  qed
qed

lemma files_ok_iff:
  "files_ok e clock a = (\<forall>i<file_attempts e clock. alloc_ok e (a + i))"
proof -
  have three: "(\<forall>i<3. P i) = (P 0 \<and> P (Suc 0) \<and> P (Suc (Suc 0)))" for P :: "nat \<Rightarrow> bool"
    by (auto simp: numeral_3_eq_3 less_Suc_eq)
  have four: "(\<forall>i<4. P i) = (P 0 \<and> P (Suc 0) \<and> P (Suc (Suc 0)) \<and> P (Suc (Suc (Suc 0))))"
    for P :: "nat \<Rightarrow> bool"
    by (auto simp: numeral_eq_Suc less_Suc_eq)
  have five: "(\<forall>i<5. P i) =
      (P 0 \<and> P (Suc 0) \<and> P (Suc (Suc 0)) \<and> P (Suc (Suc (Suc 0))) \<and>
       P (Suc (Suc (Suc (Suc 0)))))"
    for P :: "nat \<Rightarrow> bool"
    by (auto simp: numeral_eq_Suc less_Suc_eq)
  show ?thesis
    by (cases "measure_rate (ops_of e clock) = None"; cases "list_rate (ops_of e clock) = None")
      (simp_all add: files_ok_def measure_ok_def list_rates_ok_def file_attempts_def
        three four five)
qed

section \<open>Registering a clock\<close>

lemma cstr_no_NUL: "NUL \<notin> set (cstr xs)"
  by (auto simp: cstr_def dest: set_takeWhileD)

lemma cstr_terminated: "NUL \<notin> set xs \<Longrightarrow> cstr (xs @ NUL # r) = xs"
  by (induction xs) (auto simp: cstr_def)

lemma lower_loop_terminated:
  "NUL \<notin> set xs \<Longrightarrow> lower_loop f (xs @ NUL # r) = Inr (map f xs @ NUL # r)"
  by (induction xs) (auto simp: bindF_def)

lemma strncpy_short:
  assumes "length (cstr src) < n"
  shows "\<exists>r. strncpy dest src n = cstr src @ NUL # r"
proof -
  obtain k where "n - length (cstr src) = Suc k"
    using assms by (cases "n - length (cstr src)") auto
  then show ?thesis
    using assms by (simp add: strncpy_def)
qed

lemma clk_dir_temp_short:
  assumes "length (cstr (dbg_name clock)) < 49"
  shows "\<exists>r. clk_dir_temp e uninit clock =
    Inr (map (tolower e) (cstr (dbg_name clock)) @ NUL # r)"
proof -
  obtain r where "strncpy (map uninit [0..<50]) (dbg_name clock) (50 - 1) =
      cstr (dbg_name clock) @ NUL # r"
    using strncpy_short [of "dbg_name clock" "50 - 1"] assms by auto
  then show ?thesis
    by (simp add: clk_dir_temp_def lower_loop_terminated cstr_no_NUL)
qed

lemma clock_debug_add_registered:
  assumes fresh: "dentries_fresh s"
    and reg: "clock_debug_add e uninit clock s = Inr (0, s')"
  shows "\<exists>p temp. debugfs_base s = Some p \<and> is_dir p (dentries s) \<and>
    clk_dir_temp e uninit clock = Inr temp \<and> same_but_debugfs s s' \<and>
    clk_dir_holds (dentries s) p (next_dentry s) (cstr temp) (clk_files e clock) (dentries s')"
proof -
  obtain p where p: "debugfs_base s = Some p"
    using reg by (cases "debugfs_base s") (auto simp: clock_debug_add_def ENOMEM_def)
  obtain temp where temp: "clk_dir_temp e uninit clock = Inr temp"
    using reg p by (cases "clk_dir_temp e uninit clock") (auto simp: clock_debug_add_def bindF_def)
  have dir: "is_dir p (dentries s)"
    using reg p temp
    by (auto simp: clock_debug_add_def bindF_def debugfs_create_dir_def debugfs_create_def
        Let_def split: if_splits)
  show ?thesis
    using clock_debug_add_outcome [OF fresh p dir temp] reg p dir temp
    by (auto simp: ENOMEM_def split: if_splits)
qed

text \<open>
  C2: take a state whose handles are all older than the next one and whose root handle is
  a directory of the tree, and a clock whose name leaves \<open>temp\<close> terminated. When the
  directory of the clock is created and one of the files \<open>clock_debug_add\<close> then sets out
  to create is not, the function returns \<open>-ENOMEM\<close>, the handle of the directory of the
  clock is no longer in the tree, and the tree is the tree before the call, so the
  directories of the clocks registered before are unchanged. Nothing but the debugfs
  tree and its counters has changed.
\<close>
theorem clock_debug_add_failure_cleanup:
  assumes "dentries_fresh s"
    and "debugfs_base s = Some p" and "is_dir p (dentries s)"
    and "clk_dir_temp e uninit clock = Inr temp"
    and "alloc_ok e (attempts s)"
    and "\<exists>i<file_attempts e clock. \<not> alloc_ok e (Suc (attempts s) + i)"
  shows "\<exists>s'. clock_debug_add e uninit clock s = Inr (- ENOMEM, s') \<and>
    dentries s' = dentries s \<and>
    lookup_forest (next_dentry s) (dentries s') = None \<and>
    same_but_debugfs s s'"
proof -
  have "\<not> files_ok e clock (Suc (attempts s))"
    using assms(6) by (simp add: files_ok_iff)
  moreover have "lookup_forest (next_dentry s) (dentries s) = None"
    using fresh_notin [OF assms(1)] by (simp add: lookup_none_notin)
  ultimately show ?thesis
    using clock_debug_add_outcome [OF assms(1-4)] by auto
qed

text \<open>
  C6: when \<open>clock_debug_add\<close> has registered a clock (it returned 0), the tree is the tree
  before the call with one more directory below the root directory, and the files of
  that directory are \<open>rate\<close>, \<open>enable\<close> and \<open>is_local\<close>, then \<open>measure\<close> exactly when
  the \<open>measure_rate\<close> operation is not NULL, then \<open>list_rates\<close> exactly when the
  \<open>list_rate\<close> operation is not NULL, each with the mode, the clock and the operations
  the source gives it.
\<close>
theorem clock_debug_add_files:
  assumes "dentries_fresh s"
    and "clock_debug_add e uninit clock s = Inr (0, s')"
  shows "\<exists>p nm fs. debugfs_base s = Some p \<and> is_dir p (dentries s) \<and>
    dentries s' = map (insert_under p (Dir (next_dentry s) nm fs)) (dentries s) \<and>
    map file_entry fs = map Some
      ([(''rate'', S_IRUGO OR S_IWUSR, Data_clk clock, clock_rate_fops),
        (''enable'', S_IRUGO OR S_IWUSR, Data_clk clock, clock_enable_fops),
        (''is_local'', S_IRUGO, Data_clk clock, clock_local_fops)]
       @ (if measure_rate (ops_of e clock) \<noteq> None
          then [(''measure'', S_IRUGO, Data_clk clock, clock_measure_fops)] else [])
       @ (if list_rate (ops_of e clock) \<noteq> None
          then [(''list_rates'', S_IRUGO, Data_clk clock, list_rates_fops)] else []))"
  using clock_debug_add_registered [OF assms]
  unfolding clk_dir_holds_def clk_files_def measure_files_def list_rates_files_def
  by blast

lemma lower_loop_unterminated:
  "NUL \<notin> set xs \<Longrightarrow> lower_loop f xs = Inl Temp_overrun"
  by (induction xs) (auto simp: bindF_def)

lemma temp_last_byte: "drop 49 (map uninit [0..<50]) = [uninit 49]"
proof -
  have "[49..<50] = [49::nat]"
    by (simp add: upt_rec)
  then show ?thesis
    by (simp add: drop_map)
qed

text \<open>
  A name of 49 or more characters fills the 49 bytes \<open>strncpy\<close> writes, and \<open>temp[49]\<close>
  is what the stack holds: when that is not NUL, the loop reads past \<open>temp\<close>.
\<close>

lemma clk_dir_temp_long:
  assumes "49 \<le> length (cstr (dbg_name clock))" and "uninit 49 \<noteq> NUL"
  shows "clk_dir_temp e uninit clock = Inl Temp_overrun"
proof -
  let ?c = "take 49 (cstr (dbg_name clock))"
  have "NUL \<notin> set ?c"
    using cstr_no_NUL [of "dbg_name clock"] by (auto dest: in_set_takeD)
  then have "NUL \<notin> set (?c @ [uninit 49])"
    using assms(2) by auto
  moreover have "strncpy (map uninit [0..<50]) (dbg_name clock) (50 - 1) = ?c @ [uninit 49]"
    using assms(1) by (simp add: strncpy_def temp_last_byte)
  ultimately show ?thesis
    unfolding clk_dir_temp_def by (simp add: lower_loop_unterminated)
qed

lemma clock_debug_add_long_name:
  assumes "debugfs_base s \<noteq> None"
    and "49 \<le> length (cstr (dbg_name clock))" and "uninit 49 \<noteq> NUL"
  shows "clock_debug_add e uninit clock s = Inl Temp_overrun"
  using assms(1) clk_dir_temp_long [of clock uninit e, OF assms(2,3)]
  by (auto simp: clock_debug_add_def bindF_def)

text \<open>
  A name shorter than 49 characters is terminated by \<open>strncpy\<close>, whatever the stack
  holds: the directory of a registered clock is then named by the \<open>dbg_name\<close> with
  \<open>tolower\<close> applied to every character.
\<close>

lemma clock_debug_add_short_name:
  assumes "dentries_fresh s"
    and "clock_debug_add e uninit clock s = Inr (0, s')"
    and "length (cstr (dbg_name clock)) < 49"
    and "\<forall>c. c \<noteq> NUL \<longrightarrow> tolower e c \<noteq> NUL"
  shows "\<exists>p fs. debugfs_base s = Some p \<and> is_dir p (dentries s) \<and>
    dentries s' =
      map (insert_under p (Dir (next_dentry s) (map (tolower e) (cstr (dbg_name clock))) fs))
        (dentries s)"
proof -
  obtain p temp where reg: "debugfs_base s = Some p" "is_dir p (dentries s)"
    "clk_dir_temp e uninit clock = Inr temp"
    "clk_dir_holds (dentries s) p (next_dentry s) (cstr temp) (clk_files e clock) (dentries s')"
    using clock_debug_add_registered [OF assms(1,2)] by blast
  obtain r where "temp = map (tolower e) (cstr (dbg_name clock)) @ NUL # r"
    using clk_dir_temp_short [OF assms(3), of e uninit] reg(3) by auto
  moreover have "NUL \<notin> set (map (tolower e) (cstr (dbg_name clock)))"
    using assms(4) cstr_no_NUL [of "dbg_name clock"] by (metis imageE list.set_map)
  ultimately have "cstr temp = map (tolower e) (cstr (dbg_name clock))"
    by (simp add: cstr_terminated)
  then show ?thesis
    using reg(1,2,4) unfolding clk_dir_holds_def by auto
qed

lemma ex_ready_fresh: "dentries_fresh ex_ready"
  by (simp add: dentries_fresh_def ids_forest_def ex_ready_def)

lemma ex_ready_base: "debugfs_base ex_ready = Some 0" "is_dir 0 (dentries ex_ready)"
  by (simp_all add: is_dir_def ex_ready_def)

lemma ex_ready_next: "next_dentry ex_ready = 2"
  by (simp add: ex_ready_def)

lemma ex_clk_short: "length (cstr (dbg_name ex_clk)) < 49"
  by (simp add: cstr_def ex_clk_def NUL_def)

lemma ex_tolower_NUL: "c \<noteq> NUL \<Longrightarrow> ex_tolower c \<noteq> NUL"
proof (cases "65 \<le> (of_char c :: nat) \<and> (of_char c :: nat) \<le> 90")
  case True
  then have "(of_char (ex_tolower c) :: nat) = (of_char c + 32) mod 256"
    by (simp add: ex_tolower_def)
  then have "(of_char (ex_tolower c) :: nat) \<noteq> 0"
    using True by simp
  then show ?thesis
    by (auto simp: NUL_def)
next
  case False
  assume "c \<noteq> NUL"
  then show ?thesis
    using False by (auto simp: ex_tolower_def)
qed

lemma ex_clk_tables:
  "measure_rate (ops_of ex_env ex_clk) \<noteq> None" "list_rate (ops_of ex_env ex_clk) \<noteq> None"
  "measure_rate (ops_of ex_env ex_clk_remote) = None"
  "list_rate (ops_of ex_env ex_clk_remote) = None"
  by (simp_all add: ops_of_def ex_env_def ex_clk_def ex_clk_remote_def ex_ops_local_def
      ex_ops_remote_def)

lemma ex_clk_registered:
  "clock_debug_add ex_env ex_uninit_x ex_clk ex_ready = Inr (0, ex_registered)"
  by code_simp

lemma ex_clk_remote_registered:
  "clock_debug_add ex_env ex_uninit_x ex_clk_remote ex_ready = Inr (0, ex_registered_remote)"
  by code_simp

lemma ex_registered_fresh: "dentries_fresh ex_registered"
  by (simp add: dentries_fresh_def ids_forest_def ex_registered_def ex_ready_def)

lemma ex_registered_base:
  "debugfs_base ex_registered = Some 0" "is_dir 0 (dentries ex_registered)"
  by (simp_all add: is_dir_def ex_registered_def ex_ready_def)

lemma ex_clk_remote_short: "length (cstr (dbg_name ex_clk_remote)) < 49"
  by (simp add: cstr_def ex_clk_remote_def NUL_def)

text \<open>C2 for a second clock, whose \<open>enable\<close> file is not created: the directory of the
  first clock stays.\<close>
theorem clock_debug_add_failure_cleanup_witness:
  "alloc_ok ex_env_fail (attempts ex_registered) \<and>
   \<not> alloc_ok ex_env_fail (Suc (attempts ex_registered) + 1) \<and>
   clock_debug_add ex_env_fail ex_uninit_x ex_clk_remote ex_registered =
     Inr (- 12, ex_registered\<lparr>next_dentry := 10, attempts := 11\<rparr>) \<and>
   dentries (ex_registered\<lparr>next_dentry := 10, attempts := 11\<rparr>) = dentries ex_registered"
proof -
  obtain temp where temp: "clk_dir_temp ex_env_fail ex_uninit_x ex_clk_remote = Inr temp"
    using clk_dir_temp_short [OF ex_clk_remote_short] by blast
  have ok: "alloc_ok ex_env_fail (attempts ex_registered)"
    by (simp add: ex_env_fail_def ex_registered_def ex_ready_def)
  have no: "(1 :: nat) < file_attempts ex_env_fail ex_clk_remote \<and>
      \<not> alloc_ok ex_env_fail (Suc (attempts ex_registered) + 1)"
    by (simp add: file_attempts_def ex_env_fail_def ex_registered_def ex_ready_def)
  then have bad: "\<exists>i<file_attempts ex_env_fail ex_clk_remote.
      \<not> alloc_ok ex_env_fail (Suc (attempts ex_registered) + i)"
    by blast
  have "\<exists>s'. clock_debug_add ex_env_fail ex_uninit_x ex_clk_remote ex_registered =
        Inr (- ENOMEM, s') \<and>
      dentries s' = dentries ex_registered \<and>
      lookup_forest (next_dentry ex_registered) (dentries s') = None \<and>
      same_but_debugfs ex_registered s'"
    by (rule clock_debug_add_failure_cleanup
        [OF ex_registered_fresh ex_registered_base temp ok bad])
  moreover have "clock_debug_add ex_env_fail ex_uninit_x ex_clk_remote ex_registered =
      Inr (- 12, ex_registered\<lparr>next_dentry := 10, attempts := 11\<rparr>)"
    by code_simp
  ultimately show ?thesis
    using ok no by simp
qed

text \<open>C6 at a clock with both optional operations and at a clock with neither.\<close>
theorem clock_debug_add_files_witness:
  "clock_debug_add ex_env ex_uninit_x ex_clk ex_ready = Inr (0, ex_registered) \<and>
   (\<exists>p nm fs. debugfs_base ex_ready = Some p \<and> is_dir p (dentries ex_ready) \<and>
      dentries ex_registered = map (insert_under p (Dir 2 nm fs)) (dentries ex_ready) \<and>
      map file_entry fs = map Some
        [(''rate'', 0x1A4, Data_clk ex_clk, clock_rate_fops),
         (''enable'', 0x1A4, Data_clk ex_clk, clock_enable_fops),
         (''is_local'', 0x124, Data_clk ex_clk, clock_local_fops),
         (''measure'', 0x124, Data_clk ex_clk, clock_measure_fops),
         (''list_rates'', 0x124, Data_clk ex_clk, list_rates_fops)]) \<and>
   clock_debug_add ex_env ex_uninit_x ex_clk_remote ex_ready = Inr (0, ex_registered_remote) \<and>
   (\<exists>p nm fs. debugfs_base ex_ready = Some p \<and> is_dir p (dentries ex_ready) \<and>
      dentries ex_registered_remote = map (insert_under p (Dir 2 nm fs)) (dentries ex_ready) \<and>
      map file_entry fs = map Some
        [(''rate'', 0x1A4, Data_clk ex_clk_remote, clock_rate_fops),
         (''enable'', 0x1A4, Data_clk ex_clk_remote, clock_enable_fops),
         (''is_local'', 0x124, Data_clk ex_clk_remote, clock_local_fops)])"
  using clock_debug_add_files [OF ex_ready_fresh ex_clk_registered]
    clock_debug_add_files [OF ex_ready_fresh ex_clk_remote_registered]
    ex_clk_registered ex_clk_remote_registered
  by (simp add: ex_clk_tables S_IRUGO_def S_IWUSR_def ex_ready_next)

text \<open>
  C9 fails on the code. \<open>strncpy\<close> is given 49 of the 50 bytes of \<open>temp\<close>, and nothing
  writes \<open>temp[49]\<close>. A clock whose \<open>dbg_name\<close> is forty-nine times \<open>A\<close> is registered
  under forty-nine times \<open>a\<close> when the stack happens to hold NUL there, and the loop
  reads past \<open>temp\<close> when it holds \<open>x\<close>. For fifty times \<open>A\<close> the loop reads past
  \<open>temp\<close> in the same way, and the NUL that stops it leaves forty-nine times \<open>a\<close>.
\<close>
theorem clock_debug_add_unterminated_temp:
  "length (cstr (dbg_name ex_clk_49)) = 49 \<and>
   map (tolower ex_env) (cstr (dbg_name ex_clk_49)) = replicate 49 (CHR ''a'') \<and>
   clock_debug_add ex_env ex_uninit ex_clk_49 ex_ready = Inr (0, ex_registered_49) \<and>
   clock_debug_add ex_env ex_uninit_x ex_clk_49 ex_ready = Inl Temp_overrun \<and>
   map (tolower ex_env) (cstr (dbg_name ex_clk_long)) = replicate 50 (CHR ''a'') \<and>
   clock_debug_add ex_env ex_uninit ex_clk_long ex_ready = Inr (0, ex_registered_long) \<and>
   clock_debug_add ex_env ex_uninit_x ex_clk_long ex_ready = Inl Temp_overrun"
  by code_simp

section \<open>Initialisation\<close>

lemma lookup_forest_new_root:
  "d \<notin> set (ids_forest T) \<Longrightarrow> dentry_of c = d \<Longrightarrow> lookup_forest d (T @ [c]) = Some c"
  using lookup_none_notin(2) [of d T] lookup_node_self [of c]
  by (simp add: lookup_forest_append)

text \<open>The tree with a new root directory added at the top level.\<close>

lemma new_root_dir:
  assumes "dentries_fresh s"
  shows "is_dir (next_dentry s) (dentries s @ [Dir (next_dentry s) nm []])"
    and "lookup_forest (next_dentry s) (dentries s @ [Dir (next_dentry s) nm []]) =
      Some (Dir (next_dentry s) nm [])"
    and "remove_tree (next_dentry s) (dentries s @ [Dir (next_dentry s) nm []]) = dentries s"
    and "map (insert_under (next_dentry s) c) (dentries s) = dentries s"
proof -
  let ?d = "next_dentry s"
  let ?root = "Dir ?d nm []"
  have notin: "?d \<notin> set (ids_forest (dentries s))"
    by (rule fresh_notin [OF assms])
  show look: "lookup_forest ?d (dentries s @ [?root]) = Some ?root"
    using lookup_forest_new_root [OF notin, of ?root] by simp
  show "is_dir ?d (dentries s @ [?root])"
    by (simp add: is_dir_def look)
  show "remove_tree ?d (dentries s @ [?root]) = dentries s"
    using remove_tree_append_fresh [OF notin, of ?root] by simp
  show "map (insert_under ?d c) (dentries s) = dentries s"
    using notin by (simp add: ids_forest_def insert_under_notin map_idI)
qed

lemma clock_debug_init_cases:
  assumes "dentries_fresh s"
  shows "(\<not> alloc_ok e (attempts s) \<longrightarrow>
      clock_debug_init e head s =
        Inr (- ENOMEM, s\<lparr>attempts := Suc (attempts s), debugfs_base := None\<rparr>)) \<and>
    (alloc_ok e (attempts s) \<and> \<not> alloc_ok e (Suc (attempts s)) \<longrightarrow>
      clock_debug_init e head s =
        Inr (- ENOMEM, s\<lparr>attempts := Suc (Suc (attempts s)),
                          next_dentry := Suc (next_dentry s),
                          debugfs_base := Some (next_dentry s)\<rparr>)) \<and>
    (alloc_ok e (attempts s) \<and> alloc_ok e (Suc (attempts s)) \<longrightarrow>
      clock_debug_init e head s =
        Inr (0, s\<lparr>attempts := Suc (Suc (attempts s)),
                   next_dentry := Suc (Suc (next_dentry s)),
                   dentries := dentries s @
                     [Dir (next_dentry s) ''clk''
                       [File (Suc (next_dentry s)) ''debug_suspend'' (S_IRUGO OR S_IWUSR)
                          Data_debug_suspend fops_u32]],
                   debugfs_base := Some (next_dentry s),
                   clocks_ptr := Some head\<rparr>))"
  using new_root_dir [OF assms]
  by (simp add: clock_debug_init_def debugfs_create_dir_def debugfs_create_u32_def
      debugfs_create_file_def debugfs_create_def debugfs_remove_recursive_def bindF_def
      Let_def)

text \<open>
  C3: from a state whose handles are all older than the next one, \<open>clock_debug_init\<close>
  returns \<open>-ENOMEM\<close> when the root directory cannot be created; it returns \<open>-ENOMEM\<close>
  when the root directory is created and \<open>debug_suspend\<close> is not, and then the tree is
  the tree before the call, the root directory removed again; and it returns 0 when both
  are created, with the root directory, its file and the clock list in place.
\<close>
theorem clock_debug_init_outcome:
  assumes "dentries_fresh s"
  shows "(\<not> alloc_ok e (attempts s) \<longrightarrow>
      clock_debug_init e head s =
        Inr (- ENOMEM, s\<lparr>attempts := Suc (attempts s), debugfs_base := None\<rparr>)) \<and>
    (alloc_ok e (attempts s) \<and> \<not> alloc_ok e (Suc (attempts s)) \<longrightarrow>
      clock_debug_init e head s =
        Inr (- ENOMEM, s\<lparr>attempts := Suc (Suc (attempts s)),
                          next_dentry := Suc (next_dentry s),
                          debugfs_base := Some (next_dentry s)\<rparr>)) \<and>
    (alloc_ok e (attempts s) \<and> alloc_ok e (Suc (attempts s)) \<longrightarrow>
      clock_debug_init e head s =
        Inr (0, s\<lparr>attempts := Suc (Suc (attempts s)),
                   next_dentry := Suc (Suc (next_dentry s)),
                   dentries := dentries s @
                     [Dir (next_dentry s) ''clk''
                       [File (Suc (next_dentry s)) ''debug_suspend'' (S_IRUGO OR S_IWUSR)
                          Data_debug_suspend fops_u32]],
                   debugfs_base := Some (next_dentry s),
                   clocks_ptr := Some head\<rparr>))"
  using new_root_dir [OF assms]
  by (simp add: clock_debug_init_def debugfs_create_dir_def debugfs_create_u32_def
      debugfs_create_file_def debugfs_create_def debugfs_remove_recursive_def bindF_def
      Let_def)

lemma ex_state_fresh: "dentries_fresh ex_state"
  by (simp add: dentries_fresh_def ids_forest_def ex_state_def)

text \<open>C3 at the empty tree, for each of the three outcomes.\<close>
theorem clock_debug_init_outcome_witness:
  "clock_debug_init (ex_env\<lparr>alloc_ok := (\<lambda>n. False)\<rparr>) [ex_clk, ex_clk_remote] ex_state =
     Inr (- 12, ex_state\<lparr>attempts := 1\<rparr>) \<and>
   clock_debug_init (ex_env\<lparr>alloc_ok := (\<lambda>n. n = 0)\<rparr>) [ex_clk, ex_clk_remote] ex_state =
     Inr (- 12, ex_state\<lparr>attempts := 2, next_dentry := 1, debugfs_base := Some 0\<rparr>) \<and>
   clock_debug_init ex_env [ex_clk, ex_clk_remote] (ex_state\<lparr>debug_suspend := 1\<rparr>) =
     Inr (0, ex_ready)"
  using clock_debug_init_outcome [OF ex_state_fresh,
      of "ex_env\<lparr>alloc_ok := (\<lambda>n. False)\<rparr>" "[ex_clk, ex_clk_remote]"]
    clock_debug_init_outcome [OF ex_state_fresh,
      of "ex_env\<lparr>alloc_ok := (\<lambda>n. n = 0)\<rparr>" "[ex_clk, ex_clk_remote]"]
    clock_debug_init_outcome [of "ex_state\<lparr>debug_suspend := 1\<rparr>" ex_env "[ex_clk, ex_clk_remote]"]
  by (simp add: ex_state_def ex_ready_def ex_env_def ENOMEM_def S_IRUGO_def S_IWUSR_def
      dentries_fresh_def ids_forest_def)

section \<open>Registration after a failed initialisation\<close>

text \<open>
  C10 fails on the code. When \<open>clock_debug_init\<close> creates the root directory and then
  fails at \<open>debug_suspend\<close>, it removes the root directory and returns \<open>-ENOMEM\<close>, but
  \<open>debugfs_base\<close> keeps the handle of the removed directory. A \<open>clock_debug_add\<close> that
  follows does not return \<open>-ENOMEM\<close>: its guard does not fire, and it goes on to create
  a directory below the removed one (or before that reads past \<open>temp\<close>).
\<close>
theorem clock_debug_add_after_failed_init:
  assumes "dentries_fresh s"
    and "alloc_ok e (attempts s)" and "\<not> alloc_ok e (Suc (attempts s))"
  shows "\<exists>s1. clock_debug_init e head s = Inr (- ENOMEM, s1) \<and>
    debugfs_base s1 = Some (next_dentry s) \<and>
    lookup_forest (next_dentry s) (dentries s1) = None \<and>
    clock_debug_add e' uninit clock s1 =
      (case clk_dir_temp e' uninit clock of
         Inl f \<Rightarrow> Inl f
       | Inr temp \<Rightarrow> Inl Stale_dentry)"
proof -
  let ?s1 = "s\<lparr>attempts := Suc (Suc (attempts s)), next_dentry := Suc (next_dentry s),
      debugfs_base := Some (next_dentry s)\<rparr>"
  have init: "clock_debug_init e head s = Inr (- ENOMEM, ?s1)"
    using clock_debug_init_cases [OF assms(1), of e head] assms(2,3) by simp
  have gone: "lookup_forest (next_dentry s) (dentries ?s1) = None"
    using fresh_notin [OF assms(1)] by (simp add: lookup_none_notin)
  then have "\<not> is_dir (next_dentry s) (dentries ?s1)"
    by (simp add: is_dir_def)
  then have "clock_debug_add e' uninit clock ?s1 =
      (case clk_dir_temp e' uninit clock of
         Inl f \<Rightarrow> Inl f
       | Inr temp \<Rightarrow> Inl Stale_dentry)"
    by (simp add: clock_debug_add_def bindF_def debugfs_create_dir_def debugfs_create_def
        Let_def split: sum.splits)
  then show ?thesis
    using init gone by (intro exI [of _ ?s1]) simp
qed

text \<open>
  The failing run at the empty tree: the initialisation fails at \<open>debug_suspend\<close>, and
  registering the sample clock ends in the use of the removed directory.
\<close>
theorem clock_debug_add_after_failed_init_witness:
  "dentries_fresh ex_state \<and>
   alloc_ok ex_env_half (attempts ex_state) \<and>
   \<not> alloc_ok ex_env_half (Suc (attempts ex_state)) \<and>
   clock_debug_init ex_env_half [ex_clk, ex_clk_remote] ex_state = Inr (- 12, ex_half) \<and>
   debugfs_base ex_half = Some 0 \<and>
   lookup_forest 0 (dentries ex_half) = None \<and>
   clock_debug_add ex_env ex_uninit_x ex_clk ex_half = Inl Stale_dentry"
proof -
  have ok: "alloc_ok ex_env_half (attempts ex_state)"
    and no: "\<not> alloc_ok ex_env_half (Suc (attempts ex_state))"
    by (simp_all add: ex_env_half_def ex_state_def)
  have init: "clock_debug_init ex_env_half [ex_clk, ex_clk_remote] ex_state = Inr (- 12, ex_half)"
    by code_simp
  have add: "clock_debug_add ex_env ex_uninit_x ex_clk ex_half = Inl Stale_dentry"
    by code_simp
  show ?thesis
    using clock_debug_add_after_failed_init [OF ex_state_fresh ok no,
        of "[ex_clk, ex_clk_remote]" ex_env ex_uninit_x ex_clk]
      ex_state_fresh ok no init add
    by (simp add: ex_half_def ex_state_def)
qed


section \<open>The suspend log\<close>

lemma klog_printk [simp]: "klog (printk m s) = klog s @ [m]"
  by (simp add: printk_def)

lemma is_enabled_scan_length:
  "is_enabled_scan e clocks w = (rs, w') \<Longrightarrow> length rs = length clocks"
  by (induction clocks arbitrary: w rs) (auto split: prod.splits)

text \<open>The loop, from any count and any state, in terms of the answers of the scan.\<close>

lemma print_enabled_loop_scan:
  "is_enabled_scan e clocks (world s) = (rs, w) \<Longrightarrow>
   print_enabled_loop e clocks cnt s =
     (cnt + int (length (filter (\<lambda>r. r \<noteq> 0) rs)),
      s\<lparr>world := w,
        calls := calls s @ map2 (\<lambda>c r. Op_is_enabled (ops c) (id_clk c) r) clocks rs,
        klog := klog s @ map (\<lambda>(c, r). Msg_clock_name (dbg_name c))
                          (filter (\<lambda>(c, r). r \<noteq> 0) (zip clocks rs))\<rparr>)"
proof (induction clocks arbitrary: cnt s rs)
  case Nil
  then show ?case by simp
next
  case (Cons c rest)
  obtain r w1 where r: "is_enabled (ops_mem e (ops c)) (id_clk c) (world s) = (r, w1)"
    by (cases "is_enabled (ops_mem e (ops c)) (id_clk c) (world s)")
  obtain rs' where rs': "rs = r # rs'" "is_enabled_scan e rest w1 = (rs', w)"
    using Cons.prems r by (auto split: prod.splits)
  define s1 where "s1 = s\<lparr>world := w1,
      calls := calls s @ [Op_is_enabled (ops c) (id_clk c) r]\<rparr>"
  have call: "do_is_enabled e c s = (r, s1)"
    using r by (simp add: do_is_enabled_def ops_of_def s1_def)
  show ?case
  proof (cases "r = 0")
    case True
    have "is_enabled_scan e rest (world s1) = (rs', w)"
      using rs'(2) by (simp add: s1_def)
    from Cons.IH [OF this, of cnt] show ?thesis
      using call True rs'(1) by (simp add: s1_def)
  next
    case False
    have "is_enabled_scan e rest (world (printk (Msg_clock_name (dbg_name c)) s1)) = (rs', w)"
      using rs'(2) by (simp add: s1_def printk_def)
    from Cons.IH [OF this, of "cnt + 1"] show ?thesis
      using call False rs'(1) by (simp add: s1_def printk_def)
  qed
qed

text \<open>
  C8: when \<open>debug_suspend\<close> is 0, \<open>clock_debug_print_enabled\<close> leaves the state as it
  is: nothing printed, nothing called. When it is not 0, it asks each clock of the list
  once, in the order of the list, through the \<open>is_enabled\<close> operation of the table of
  that clock with the id of that clock; these are the only calls it makes. It prints the
  heading, the name of each clock whose call returned nonzero, and then the number of
  these clocks, or the message that no clock is enabled when there is none. The driver
  state is the one the calls leave, and nothing else changes.
\<close>
theorem clock_debug_print_enabled_scan:
  "(debug_suspend s = 0 \<longrightarrow> clock_debug_print_enabled e s = Inr s) \<and>
   (debug_suspend s \<noteq> 0 \<and> clocks_ptr s = Some clocks \<longrightarrow>
     (\<exists>rs w. is_enabled_scan e clocks (world s) = (rs, w) \<and>
        length rs = length clocks \<and>
        clock_debug_print_enabled e s =
          Inr (s\<lparr>world := w,
                 calls := calls s
                   @ map2 (\<lambda>c r. Op_is_enabled (ops c) (id_clk c) r) clocks rs,
                 klog := klog s @ [Msg_enabled_clocks]
                   @ map (\<lambda>(c, r). Msg_clock_name (dbg_name c))
                       (filter (\<lambda>(c, r). r \<noteq> 0) (zip clocks rs))
                   @ [if length (filter (\<lambda>r. r \<noteq> 0) rs) = 0 then Msg_no_clocks_enabled
                      else Msg_enabled_count (int (length (filter (\<lambda>r. r \<noteq> 0) rs)))]\<rparr>)))"
proof (intro conjI impI)
  assume "debug_suspend s = 0"
  then show "clock_debug_print_enabled e s = Inr s"
    by (simp add: clock_debug_print_enabled_def)
next
  assume a: "debug_suspend s \<noteq> 0 \<and> clocks_ptr s = Some clocks"
  obtain rs w where scan: "is_enabled_scan e clocks (world s) = (rs, w)"
    by (cases "is_enabled_scan e clocks (world s)")
  have len: "length rs = length clocks"
    by (rule is_enabled_scan_length [OF scan])
  have "is_enabled_scan e clocks (world (printk Msg_enabled_clocks s)) = (rs, w)"
    using scan by (simp add: printk_def)
  note loop = print_enabled_loop_scan [OF this, of 0]
  have ptr: "clocks_ptr (printk Msg_enabled_clocks s) = Some clocks"
    using a by (simp add: printk_def)
  have "clock_debug_print_enabled e s =
      Inr (s\<lparr>world := w,
             calls := calls s
               @ map2 (\<lambda>c r. Op_is_enabled (ops c) (id_clk c) r) clocks rs,
             klog := klog s @ [Msg_enabled_clocks]
               @ map (\<lambda>(c, r). Msg_clock_name (dbg_name c))
                   (filter (\<lambda>(c, r). r \<noteq> 0) (zip clocks rs))
               @ [if length (filter (\<lambda>r. r \<noteq> 0) rs) = 0 then Msg_no_clocks_enabled
                  else Msg_enabled_count (int (length (filter (\<lambda>r. r \<noteq> 0) rs)))]\<rparr>)"
    using a ptr by (simp add: clock_debug_print_enabled_def loop) (simp add: printk_def)
  then show "\<exists>rs w. is_enabled_scan e clocks (world s) = (rs, w) \<and>
        length rs = length clocks \<and>
        clock_debug_print_enabled e s =
          Inr (s\<lparr>world := w,
                 calls := calls s
                   @ map2 (\<lambda>c r. Op_is_enabled (ops c) (id_clk c) r) clocks rs,
                 klog := klog s @ [Msg_enabled_clocks]
                   @ map (\<lambda>(c, r). Msg_clock_name (dbg_name c))
                       (filter (\<lambda>(c, r). r \<noteq> 0) (zip clocks rs))
                   @ [if length (filter (\<lambda>r. r \<noteq> 0) rs) = 0 then Msg_no_clocks_enabled
                      else Msg_enabled_count (int (length (filter (\<lambda>r. r \<noteq> 0) rs)))]\<rparr>)"
    using scan len by blast
qed

text \<open>When \<open>is_enabled\<close> leaves the driver state alone, the answers are its values.\<close>

lemma is_enabled_scan_pure:
  assumes "\<And>p i w. snd (is_enabled (ops_mem e p) i w) = w"
  shows "is_enabled_scan e clocks w =
    (map (\<lambda>c. fst (is_enabled (ops_mem e (ops c)) (id_clk c) w)) clocks, w)"
proof (induction clocks)
  case Nil
  then show ?case by simp
next
  case (Cons c rest)
  have "is_enabled (ops_mem e (ops c)) (id_clk c) w =
      (fst (is_enabled (ops_mem e (ops c)) (id_clk c) w), w)"
    using assms [of "ops c" "id_clk c" w] by (metis prod.collapse)
  then show ?case
    using Cons by (auto split: prod.splits)
qed

text \<open>
  C8 with \<open>debug_suspend\<close> 0, and with it set and three clocks: the first and the third
  are enabled, the third by what the remote table answers after the first two calls.
\<close>
theorem clock_debug_print_enabled_scan_witness:
  "debug_suspend ex_state = 0 \<and>
   clock_debug_print_enabled ex_env ex_state = Inr ex_state \<and>
   debug_suspend ex_suspend \<noteq> 0 \<and>
   clocks_ptr ex_suspend = Some [ex_clk, ex_clk_long, ex_clk_remote] \<and>
   is_enabled_scan ex_env [ex_clk, ex_clk_long, ex_clk_remote] (world ex_suspend) =
     ([1, 0, 2], 4) \<and>
   clock_debug_print_enabled ex_env ex_suspend =
     Inr (ex_suspend\<lparr>world := 4,
            calls := [Op_is_enabled 1 5 1, Op_is_enabled 1 6 0, Op_is_enabled 0 8 2],
            klog := [Msg_enabled_clocks, Msg_clock_name ''UART1_CLK'',
                     Msg_clock_name ''Ebi1_Clk'', Msg_enabled_count 2]\<rparr>)"
proof -
  have scan: "is_enabled_scan ex_env [ex_clk, ex_clk_long, ex_clk_remote] (world ex_suspend) =
      ([1, 0, 2], 4)"
    by code_simp
  have ev: "clock_debug_print_enabled ex_env ex_suspend =
     Inr (ex_suspend\<lparr>world := 4,
            calls := [Op_is_enabled 1 5 1, Op_is_enabled 1 6 0, Op_is_enabled 0 8 2],
            klog := [Msg_enabled_clocks, Msg_clock_name ''UART1_CLK'',
                     Msg_clock_name ''Ebi1_Clk'', Msg_enabled_count 2]\<rparr>)"
    by code_simp
  show ?thesis
    using clock_debug_print_enabled_scan [of ex_state ex_env "[]"]
      clock_debug_print_enabled_scan
        [of ex_suspend ex_env "[ex_clk, ex_clk_long, ex_clk_remote]"] scan ev
    by (simp add: ex_state_def ex_suspend_def ex_ready_def)
qed

section \<open>Listing the rates\<close>










section \<open>The states the registration theorems are about\<close>

text \<open>
  The registration theorems ask for a state whose handles are all older than the next
  one and whose root handle is a directory of the tree. A successful
  \<open>clock_debug_init\<close> gives such a state, and every \<open>clock_debug_add\<close> that returns,
  with 0 or with \<open>-ENOMEM\<close>, leaves such a state.
\<close>

lemma ids_insert_under: "set (ids (insert_under p c t)) \<subseteq> set (ids t) \<union> set (ids c)"
  by (induction t) auto

lemma ids_prune: "set (ids (prune d t)) \<subseteq> set (ids t)"
  by (induction t) auto

lemma ids_forest_insert_under:
  "set (ids_forest (map (insert_under p c) T)) \<subseteq> set (ids_forest T) \<union> set (ids c)"
  using ids_insert_under [of p c] by (fastforce simp: ids_forest_def)

lemma ids_forest_remove_tree: "set (ids_forest (remove_tree d T)) \<subseteq> set (ids_forest T)"
  using ids_prune [of d] by (fastforce simp: ids_forest_def remove_tree_def)

lemma debugfs_create_fresh:
  assumes "dentries_fresh s" and "debugfs_create e mk parent s = Inr (r, s')"
    and "\<And>d. ids (mk d) = [d]"
  shows "dentries_fresh s'"
proof -
  let ?d = "next_dentry s"
  have old: "\<forall>i\<in>set (ids_forest (dentries s)). i < Suc ?d"
    using assms(1) by (auto simp: dentries_fresh_def)
  have new: "\<forall>i\<in>set (ids_forest (map (insert_under p (mk ?d)) (dentries s))). i < Suc ?d"
    for p
    using ids_forest_insert_under [of p "mk ?d" "dentries s"] old assms(3) by fastforce
  have top: "\<forall>i\<in>set (ids_forest (dentries s @ [mk ?d])). i < Suc ?d"
    using old assms(3) by (auto simp: ids_forest_def)
  show ?thesis
    using assms(1,2) new top
    by (auto simp: debugfs_create_def Let_def dentries_fresh_def
        split: option.splits if_splits)
qed

lemma debugfs_create_file_fresh:
  "dentries_fresh s \<Longrightarrow> debugfs_create_file e name mode parent data fo s = Inr (r, s') \<Longrightarrow>
   dentries_fresh s'"
  using debugfs_create_fresh [of s e "\<lambda>d. File d name mode data fo" parent r s']
  by (simp add: debugfs_create_file_def)

lemma debugfs_create_dir_fresh:
  "dentries_fresh s \<Longrightarrow> debugfs_create_dir e name parent s = Inr (r, s') \<Longrightarrow>
   dentries_fresh s'"
  using debugfs_create_fresh [of s e "\<lambda>d. Dir d name []" parent r s']
  by (simp add: debugfs_create_dir_def)

lemma error_exit_fresh:
  "dentries_fresh s \<Longrightarrow> error_exit d s = Inr (r, s') \<Longrightarrow> dentries_fresh s'"
  using ids_forest_remove_tree [of d "dentries s"]
  by (auto simp: error_exit_def debugfs_remove_recursive_def bindF_def dentries_fresh_def
      split: if_splits)

text \<open>One file of the sequence keeps the handles fresh when the rest \<open>K\<close> does.\<close>

lemma file_then_fresh:
  assumes "dentries_fresh s"
    and "bindF (debugfs_create_file e name mode (Some d) data fo s)
           (\<lambda>(f, s1). if f = None then error_exit d s1 else K s1) = Inr (r, s')"
    and "\<And>s1. dentries_fresh s1 \<Longrightarrow> K s1 = Inr (r, s') \<Longrightarrow> dentries_fresh s'"
  shows "dentries_fresh s'"
proof (cases "debugfs_create_file e name mode (Some d) data fo s")
  case (Inl f)
  then show ?thesis using assms(2) by (simp add: bindF_def)
next
  case (Inr x)
  obtain f s1 where x: "x = (f, s1)" by (cases x)
  have s1: "dentries_fresh s1"
    using debugfs_create_file_fresh [OF assms(1)] Inr x by blast
  show ?thesis
  proof (cases f)
    case None
    then show ?thesis
      using assms(2) Inr x error_exit_fresh [OF s1] by (simp add: bindF_def)
  next
    case (Some h)
    then show ?thesis
      using assms(2,3) Inr x s1 by (simp add: bindF_def)
  qed
qed

lemma add_list_rates_fresh:
  assumes "dentries_fresh s" and "add_list_rates e clock d s = Inr (r, s')"
  shows "dentries_fresh s'"
proof (cases "list_rate (ops_of e clock) = None")
  case True
  then show ?thesis using assms by (simp add: add_list_rates_def)
next
  case False
  then have "bindF (debugfs_create_file e ''list_rates'' S_IRUGO (Some d) (Data_clk clock)
        list_rates_fops s)
      (\<lambda>(f, s1). if f = None then error_exit d s1 else Inr (0, s1)) = Inr (r, s')"
    using assms(2) by (simp add: add_list_rates_def)
  then show ?thesis
    by (rule file_then_fresh [OF assms(1)]) simp
qed

lemma add_measure_fresh:
  assumes "dentries_fresh s" and "add_measure e clock d s = Inr (r, s')"
  shows "dentries_fresh s'"
proof (cases "measure_rate (ops_of e clock) = None")
  case True
  then show ?thesis
    using assms add_list_rates_fresh [of s e clock d r s'] by (simp add: add_measure_def)
next
  case False
  then have "bindF (debugfs_create_file e ''measure'' S_IRUGO (Some d) (Data_clk clock)
        clock_measure_fops s)
      (\<lambda>(f, s1). if f = None then error_exit d s1 else add_list_rates e clock d s1) =
      Inr (r, s')"
    using assms(2) by (simp add: add_measure_def)
  then show ?thesis
    by (rule file_then_fresh [OF assms(1)]) (rule add_list_rates_fresh)
qed

lemma add_files_fresh:
  fixes s :: "'a state"
  assumes "dentries_fresh s" and "add_files e clock d s = Inr (r, s')"
  shows "dentries_fresh s'"
proof -
  define K2 where "K2 s2 = bindF (debugfs_create_file e ''is_local'' S_IRUGO (Some d)
      (Data_clk clock) clock_local_fops s2)
      (\<lambda>(f, s3). if f = None then error_exit d s3 else add_measure e clock d s3)"
    for s2 :: "'a state"
  define K1 where "K1 s1 = bindF (debugfs_create_file e ''enable'' (S_IRUGO OR S_IWUSR)
      (Some d) (Data_clk clock) clock_enable_fops s1)
      (\<lambda>(f, s2). if f = None then error_exit d s2 else K2 s2)" for s1 :: "'a state"
  have k2: "dentries_fresh s'" if "dentries_fresh s2" "K2 s2 = Inr (r, s')" for s2
    using that(2) unfolding K2_def
    by (rule file_then_fresh [OF that(1)]) (rule add_measure_fresh)
  have k1: "dentries_fresh s'" if "dentries_fresh s1" "K1 s1 = Inr (r, s')" for s1
    using that(2) unfolding K1_def
    by (rule file_then_fresh [OF that(1)]) (rule k2)
  have "bindF (debugfs_create_file e ''rate'' (S_IRUGO OR S_IWUSR) (Some d)
        (Data_clk clock) clock_rate_fops s)
      (\<lambda>(f, s1). if f = None then error_exit d s1 else K1 s1) = Inr (r, s')"
    using assms(2) unfolding add_files_def K1_def [abs_def] K2_def [abs_def] .
  then show ?thesis
    by (rule file_then_fresh [OF assms(1)]) (rule k1)
qed

lemma clock_debug_add_fresh:
  assumes "dentries_fresh s" and "clock_debug_add e uninit clock s = Inr (r, s')"
  shows "dentries_fresh s'"
proof (cases "debugfs_base s")
  case None
  then show ?thesis using assms by (simp add: clock_debug_add_def)
next
  case (Some p)
  obtain temp where temp: "clk_dir_temp e uninit clock = Inr temp"
    using assms(2) Some
    by (cases "clk_dir_temp e uninit clock") (auto simp: clock_debug_add_def bindF_def)
  obtain cd s1 where dir: "debugfs_create_dir e (cstr temp) (Some p) s = Inr (cd, s1)"
    using assms(2) Some temp
    by (cases "debugfs_create_dir e (cstr temp) (Some p) s")
      (auto simp: clock_debug_add_def bindF_def)
  have s1: "dentries_fresh s1"
    by (rule debugfs_create_dir_fresh [OF assms(1) dir])
  show ?thesis
    using assms(2) Some temp dir s1 add_files_fresh [OF s1, of e clock _ r s']
    by (cases cd) (auto simp: clock_debug_add_def bindF_def)
qed

lemma clock_debug_add_base:
  assumes "dentries_fresh s" and "debugfs_base s = Some p" and "is_dir p (dentries s)"
    and "clock_debug_add e uninit clock s = Inr (r, s')"
  shows "debugfs_base s' = Some p \<and> is_dir p (dentries s')"
proof -
  obtain temp where temp: "clk_dir_temp e uninit clock = Inr temp"
    using assms(2,4)
    by (cases "clk_dir_temp e uninit clock") (auto simp: clock_debug_add_def bindF_def)
  obtain n ch where look: "lookup_forest p (dentries s) = Some (Dir p n ch)"
    using is_dir_lookup [OF assms(3)] by blast
  have "is_dir p (map (insert_under p c) (dentries s))" for c
    using lookup_insert_under_same(2) [OF look, of c] by (simp add: is_dir_def)
  then show ?thesis
    using clock_debug_add_outcome [OF assms(1-3) temp] assms(2-4)
    by (auto simp: same_but_debugfs_def clk_dir_holds_def split: if_splits)
qed

lemma clock_debug_init_ready:
  assumes "dentries_fresh s" and "clock_debug_init e head s = Inr (0, s')"
  shows "dentries_fresh s' \<and> (\<exists>p. debugfs_base s' = Some p \<and> is_dir p (dentries s'))"
proof -
  have ok: "alloc_ok e (attempts s) \<and> alloc_ok e (Suc (attempts s))"
    using clock_debug_init_cases [OF assms(1), of e head] assms(2)
    by (auto simp: ENOMEM_def)
  let ?d = "next_dentry s"
  have notin: "?d \<notin> set (ids_forest (dentries s))"
    by (rule fresh_notin [OF assms(1)])
  have s': "s' = s\<lparr>attempts := Suc (Suc (attempts s)),
                   next_dentry := Suc (Suc (next_dentry s)),
                   dentries := dentries s @
                     [Dir (next_dentry s) ''clk''
                       [File (Suc (next_dentry s)) ''debug_suspend'' (S_IRUGO OR S_IWUSR)
                          Data_debug_suspend fops_u32]],
                   debugfs_base := Some (next_dentry s),
                   clocks_ptr := Some head\<rparr>"
    using clock_debug_init_cases [OF assms(1), of e head] assms(2) ok by simp
  have "is_dir ?d (dentries s')"
    using lookup_forest_new_root [OF notin, of "Dir ?d ''clk''
        [File (Suc ?d) ''debug_suspend'' (S_IRUGO OR S_IWUSR) Data_debug_suspend fops_u32]"]
    by (simp add: s' is_dir_def)
  moreover have "dentries_fresh s'"
    using assms(1) by (auto simp: s' dentries_fresh_def ids_forest_def less_Suc_eq)
  ultimately show ?thesis
    by (auto simp: s')
qed

end
